theory Spec2Isabelle
  imports Complex_Main
begin

section \<open>Smart night light: the device-control core\<close>

text \<open>
  A shallow embedding of the device-control core of the night-light service:
  the PWM backends (\<^verbatim>\<open>app/gpio/mock_gpio.py\<close>, \<^verbatim>\<open>app/gpio/rpi_gpio.py\<close>), the LED
  controller (\<^verbatim>\<open>app/gpio/led.py\<close>), the device registry (\<^verbatim>\<open>app/domain/devices.py\<close>),
  the scenario registry (\<^verbatim>\<open>app/domain/scenarios.py\<close>) and the scenario trigger
  (\<^verbatim>\<open>app/api/routes_scenarios.py\<close>).

  Every method becomes a function from the object's state to an outcome that carries the
  state the call leaves behind: it returns a value, raises an exception, or never returns
  because it waits for a lock that nobody will release.
\<close>

subsection \<open>Python floats\<close>

text \<open>
  A Python float is a finite number, an infinity or NaN. A finite float is modelled by
  the real number it denotes, so the comparisons of the source are exact; the rounding of
  the one product the source computes (\<^verbatim>\<open>brightness * 100.0\<close>) is not modelled. Every
  comparison with NaN is false, as in IEEE 754.
\<close>

datatype pyfloat = Fin real | PInf | NInf | NaN

fun fl_lt :: "pyfloat \<Rightarrow> pyfloat \<Rightarrow> bool" where
  "fl_lt (Fin a) (Fin b) = (a < b)"
| "fl_lt (Fin a) PInf = True"
| "fl_lt NInf (Fin b) = True"
| "fl_lt NInf PInf = True"
| "fl_lt _ _ = False"

fun fl_eq :: "pyfloat \<Rightarrow> pyfloat \<Rightarrow> bool" where
  "fl_eq (Fin a) (Fin b) = (a = b)"
| "fl_eq PInf PInf = True"
| "fl_eq NInf NInf = True"
| "fl_eq _ _ = False"

definition fl_gt :: "pyfloat \<Rightarrow> pyfloat \<Rightarrow> bool" where
  "fl_gt a b = fl_lt b a"

definition fl_le :: "pyfloat \<Rightarrow> pyfloat \<Rightarrow> bool" where
  "fl_le a b = (fl_lt a b \<or> fl_eq a b)"

fun fl_mul :: "pyfloat \<Rightarrow> pyfloat \<Rightarrow> pyfloat" where
  "fl_mul NaN _ = NaN"
| "fl_mul _ NaN = NaN"
| "fl_mul (Fin a) (Fin b) = Fin (a * b)"
| "fl_mul (Fin a) PInf = (if a = 0 then NaN else if 0 < a then PInf else NInf)"
| "fl_mul (Fin a) NInf = (if a = 0 then NaN else if 0 < a then NInf else PInf)"
| "fl_mul PInf (Fin b) = (if b = 0 then NaN else if 0 < b then PInf else NInf)"
| "fl_mul NInf (Fin b) = (if b = 0 then NaN else if 0 < b then NInf else PInf)"
| "fl_mul PInf PInf = PInf"
| "fl_mul PInf NInf = NInf"
| "fl_mul NInf PInf = NInf"
| "fl_mul NInf NInf = PInf"

subsection \<open>Outcomes, locks and try/finally\<close>

datatype exn = KeyError string | HTTPException nat string | HardwareError

text \<open>
  The state in \<open>Raised\<close> is the one the exception leaves behind (nothing is rolled back);
  the state in \<open>Blocked\<close> is the one in which the call waits for ever.
\<close>

datatype ('a, 's) outcome = Returned 'a 's | Raised exn 's | Blocked 's

fun final_state :: "('a, 's) outcome \<Rightarrow> 's" where
  "final_state (Returned a s) = s"
| "final_state (Raised e s) = s"
| "final_state (Blocked s) = s"

fun and_then :: "('a, 's) outcome \<Rightarrow> ('a \<Rightarrow> 's \<Rightarrow> ('b, 's) outcome) \<Rightarrow> ('b, 's) outcome" where
  "and_then (Returned a s) f = f a s"
| "and_then (Raised e s) f = Raised e s"
| "and_then (Blocked s) f = Blocked s"

text \<open>
  \<^verbatim>\<open>with self._lock: body\<close> for a \<^verbatim>\<open>threading.Lock\<close>, which is not reentrant: acquiring a
  lock that is held waits until it is released, and within one call chain nobody
  releases it. The lock is released when the body returns or raises.
\<close>

definition with_lock ::
  "('s \<Rightarrow> bool) \<Rightarrow> (bool \<Rightarrow> 's \<Rightarrow> 's) \<Rightarrow> ('s \<Rightarrow> ('a, 's) outcome) \<Rightarrow> 's \<Rightarrow> ('a, 's) outcome" where
  "with_lock held set_held body s =
     (if held s then Blocked s
      else (case body (set_held True s) of
              Returned a s' \<Rightarrow> Returned a (set_held False s')
            | Raised e s' \<Rightarrow> Raised e (set_held False s')
            | Blocked s' \<Rightarrow> Blocked s'))"

text \<open>
  \<^verbatim>\<open>try: body finally: fin\<close>: \<open>fin\<close> runs whether \<open>body\<close> returns or raises; an exception
  of \<open>fin\<close> replaces the one of \<open>body\<close>; a body that never returns never reaches \<open>fin\<close>.
\<close>

definition try_finally ::
  "('s \<Rightarrow> ('a, 's) outcome) \<Rightarrow> ('s \<Rightarrow> (unit, 's) outcome) \<Rightarrow> 's \<Rightarrow> ('a, 's) outcome" where
  "try_finally body fin s =
     (case body s of
        Returned a s' \<Rightarrow>
          (case fin s' of
             Returned u s'' \<Rightarrow> Returned a s''
           | Raised e s'' \<Rightarrow> Raised e s''
           | Blocked s'' \<Rightarrow> Blocked s'')
      | Raised e s' \<Rightarrow>
          (case fin s' of
             Returned u s'' \<Rightarrow> Raised e s''
           | Raised e' s'' \<Rightarrow> Raised e' s''
           | Blocked s'' \<Rightarrow> Blocked s'')
      | Blocked s' \<Rightarrow> Blocked s')"

subsection \<open>The mock backend (\<^verbatim>\<open>MockPwmOutput\<close>)\<close>

record mock_pwm_output =
  mock_frequency_hz :: int
  duty_cycle_percent :: pyfloat
  started :: bool
  mock_lock :: bool

definition mock_locked :: "bool \<Rightarrow> mock_pwm_output \<Rightarrow> mock_pwm_output" where
  "mock_locked b m = m\<lparr>mock_lock := b\<rparr>"

definition mock_start :: "pyfloat \<Rightarrow> mock_pwm_output \<Rightarrow> (unit, mock_pwm_output) outcome" where
  "mock_start d =
     with_lock mock_lock mock_locked
       (\<lambda>m. Returned () (m\<lparr>started := True, duty_cycle_percent := d\<rparr>))"

definition mock_change_duty_cycle ::
  "pyfloat \<Rightarrow> mock_pwm_output \<Rightarrow> (unit, mock_pwm_output) outcome" where
  "mock_change_duty_cycle d =
     with_lock mock_lock mock_locked
       (\<lambda>m. let m1 = (if \<not> started m then m\<lparr>started := True\<rparr> else m)
            in Returned () (m1\<lparr>duty_cycle_percent := d\<rparr>))"

definition mock_stop :: "mock_pwm_output \<Rightarrow> (unit, mock_pwm_output) outcome" where
  "mock_stop =
     with_lock mock_lock mock_locked
       (\<lambda>m. Returned () (m\<lparr>started := False, duty_cycle_percent := Fin 0\<rparr>))"

definition mock_close :: "mock_pwm_output \<Rightarrow> (unit, mock_pwm_output) outcome" where
  "mock_close m = Returned () m"

subsection \<open>The hardware backend (\<^verbatim>\<open>RpiPwmOutput\<close>)\<close>

text \<open>
  The driver \<^verbatim>\<open>RPi.GPIO\<close> is not part of the repository. The fields \<^verbatim>\<open>_gpio\<close> and \<^verbatim>\<open>_pwm\<close>
  are modelled by the list of the calls the driver has received, oldest first, and by
  the driver's behaviour: whether a call raises, given the calls before it.
\<close>

datatype gpio_call = PwmStart pyfloat | PwmChangeDutyCycle pyfloat | PwmStop | GpioCleanup int

record rpi_pwm_output =
  pin :: int
  rpi_frequency_hz :: int
  rpi_lock :: bool
  gpio_calls :: "gpio_call list"
  gpio_raises :: "gpio_call list \<Rightarrow> gpio_call \<Rightarrow> bool"
  rpi_started :: bool

definition rpi_locked :: "bool \<Rightarrow> rpi_pwm_output \<Rightarrow> rpi_pwm_output" where
  "rpi_locked b r = r\<lparr>rpi_lock := b\<rparr>"

definition gpio_invoke :: "gpio_call \<Rightarrow> rpi_pwm_output \<Rightarrow> (unit, rpi_pwm_output) outcome" where
  "gpio_invoke c r =
     (let r' = r\<lparr>gpio_calls := gpio_calls r @ [c]\<rparr>
      in if gpio_raises r (gpio_calls r) c then Raised HardwareError r' else Returned () r')"

definition rpi_start :: "pyfloat \<Rightarrow> rpi_pwm_output \<Rightarrow> (unit, rpi_pwm_output) outcome" where
  "rpi_start d =
     with_lock rpi_lock rpi_locked
       (\<lambda>r. and_then (gpio_invoke (PwmStart d) r)
               (\<lambda>u r'. Returned () (r'\<lparr>rpi_started := True\<rparr>)))"

definition rpi_change_duty_cycle ::
  "pyfloat \<Rightarrow> rpi_pwm_output \<Rightarrow> (unit, rpi_pwm_output) outcome" where
  "rpi_change_duty_cycle d =
     with_lock rpi_lock rpi_locked
       (\<lambda>r. if \<not> rpi_started r
            then and_then (gpio_invoke (PwmStart d) r)
                   (\<lambda>u r'. Returned () (r'\<lparr>rpi_started := True\<rparr>))
            else gpio_invoke (PwmChangeDutyCycle d) r)"

definition rpi_stop :: "rpi_pwm_output \<Rightarrow> (unit, rpi_pwm_output) outcome" where
  "rpi_stop =
     with_lock rpi_lock rpi_locked
       (\<lambda>r. and_then (if rpi_started r then gpio_invoke PwmStop r else Returned () r)
               (\<lambda>u r'. Returned () (r'\<lparr>rpi_started := False\<rparr>)))"

definition rpi_close :: "rpi_pwm_output \<Rightarrow> (unit, rpi_pwm_output) outcome" where
  "rpi_close =
     with_lock rpi_lock rpi_locked
       (try_finally rpi_stop (\<lambda>r. gpio_invoke (GpioCleanup (pin r)) r))"

subsection \<open>The \<^verbatim>\<open>PwmOutput\<close> protocol\<close>

text \<open>
  A \<^verbatim>\<open>PwmOutput\<close> is one of the two backends. The protocol boundary also keeps the list
  of the calls the backend has received, oldest first; it is bookkeeping of the model
  that the source does not have, used to state which calls a controller makes.
\<close>

datatype pwm_backend = Mock mock_pwm_output | Rpi rpi_pwm_output

datatype pwm_call = Start pyfloat | ChangeDutyCycle pyfloat | Stop | Close

record pwm_output =
  backend :: pwm_backend
  received :: "pwm_call list"

fun in_state :: "('s \<Rightarrow> 't) \<Rightarrow> ('a, 's) outcome \<Rightarrow> ('a, 't) outcome" where
  "in_state f (Returned a s) = Returned a (f s)"
| "in_state f (Raised e s) = Raised e (f s)"
| "in_state f (Blocked s) = Blocked (f s)"

definition pwm_dispatch ::
  "pwm_call \<Rightarrow> (mock_pwm_output \<Rightarrow> ('a, mock_pwm_output) outcome) \<Rightarrow>
   (rpi_pwm_output \<Rightarrow> ('a, rpi_pwm_output) outcome) \<Rightarrow> pwm_output \<Rightarrow> ('a, pwm_output) outcome" where
  "pwm_dispatch c on_mock on_rpi p =
     (let p1 = p\<lparr>received := received p @ [c]\<rparr>
      in case backend p1 of
           Mock m \<Rightarrow> in_state (\<lambda>m'. p1\<lparr>backend := Mock m'\<rparr>) (on_mock m)
         | Rpi r \<Rightarrow> in_state (\<lambda>r'. p1\<lparr>backend := Rpi r'\<rparr>) (on_rpi r))"

definition pwm_start :: "pyfloat \<Rightarrow> pwm_output \<Rightarrow> (unit, pwm_output) outcome" where
  "pwm_start d = pwm_dispatch (Start d) (mock_start d) (rpi_start d)"

definition pwm_change_duty_cycle :: "pyfloat \<Rightarrow> pwm_output \<Rightarrow> (unit, pwm_output) outcome" where
  "pwm_change_duty_cycle d =
     pwm_dispatch (ChangeDutyCycle d) (mock_change_duty_cycle d) (rpi_change_duty_cycle d)"

definition pwm_stop :: "pwm_output \<Rightarrow> (unit, pwm_output) outcome" where
  "pwm_stop = pwm_dispatch Stop mock_stop rpi_stop"

definition pwm_close :: "pwm_output \<Rightarrow> (unit, pwm_output) outcome" where
  "pwm_close = pwm_dispatch Close mock_close rpi_close"

subsection \<open>The LED controller (\<^verbatim>\<open>LedController\<close>)\<close>

record led_state =
  is_on :: bool
  brightness :: pyfloat

definition clamp :: "pyfloat \<Rightarrow> pyfloat \<Rightarrow> pyfloat \<Rightarrow> pyfloat" where
  "clamp v low high = (if fl_lt v low then low else if fl_gt v high then high else v)"

text \<open>The fields \<^verbatim>\<open>_is_on\<close> and \<^verbatim>\<open>_brightness\<close> are \<open>cur_is_on\<close> and \<open>cur_brightness\<close>.\<close>

record led_controller =
  pwm :: pwm_output
  led_lock :: bool
  cur_is_on :: bool
  cur_brightness :: pyfloat

definition new_led_controller :: "pwm_output \<Rightarrow> led_controller" where
  "new_led_controller p = \<lparr>pwm = p, led_lock = False, cur_is_on = False, cur_brightness = Fin 0\<rparr>"

definition led_locked :: "bool \<Rightarrow> led_controller \<Rightarrow> led_controller" where
  "led_locked b c = c\<lparr>led_lock := b\<rparr>"

definition on_pwm ::
  "(pwm_output \<Rightarrow> ('a, pwm_output) outcome) \<Rightarrow> led_controller \<Rightarrow> ('a, led_controller) outcome" where
  "on_pwm f c = in_state (\<lambda>p. c\<lparr>pwm := p\<rparr>) (f (pwm c))"

definition snapshot :: "led_controller \<Rightarrow> led_state" where
  "snapshot c = \<lparr>is_on = cur_is_on c, brightness = cur_brightness c\<rparr>"

definition state :: "led_controller \<Rightarrow> (led_state, led_controller) outcome" where
  "state = with_lock led_lock led_locked (\<lambda>c. Returned (snapshot c) c)"

definition apply_duty :: "led_controller \<Rightarrow> (unit, led_controller) outcome" where
  "apply_duty c =
     (let duty = fl_mul (cur_brightness c) (Fin 100)
      in on_pwm (pwm_change_duty_cycle duty) c)"

definition set_power :: "bool \<Rightarrow> led_controller \<Rightarrow> (led_state, led_controller) outcome" where
  "set_power on =
     with_lock led_lock led_locked
       (\<lambda>c. if on
            then (let c1 = (if fl_le (cur_brightness c) (Fin 0)
                            then c\<lparr>cur_brightness := Fin 1\<rparr> else c)
                  in and_then (apply_duty c1)
                       (\<lambda>u c2. let c3 = c2\<lparr>cur_is_on := True\<rparr>
                               in Returned (snapshot c3) c3))
            else and_then (on_pwm pwm_stop c)
                   (\<lambda>u c2. let c3 = c2\<lparr>cur_is_on := False, cur_brightness := Fin 0\<rparr>
                           in Returned (snapshot c3) c3))"

definition set_brightness :: "pyfloat \<Rightarrow> led_controller \<Rightarrow> (led_state, led_controller) outcome" where
  "set_brightness b =
     with_lock led_lock led_locked
       (\<lambda>c. let c1 = c\<lparr>cur_brightness := clamp b (Fin 0) (Fin 1)\<rparr>
            in if fl_eq (cur_brightness c1) (Fin 0)
               then and_then (on_pwm pwm_stop c1)
                      (\<lambda>u c2. Returned \<lparr>is_on = False, brightness = Fin 0\<rparr> (c2\<lparr>cur_is_on := False\<rparr>))
               else (let c2 = c1\<lparr>cur_is_on := True\<rparr>
                     in and_then (apply_duty c2)
                          (\<lambda>u c3. Returned \<lparr>is_on = True, brightness = cur_brightness c3\<rparr> c3)))"

definition led_close :: "led_controller \<Rightarrow> (unit, led_controller) outcome" where
  "led_close = with_lock led_lock led_locked (try_finally (on_pwm pwm_stop) (on_pwm pwm_close))"

text \<open>The constructors: a mock backend starts stopped at duty 0, a controller starts off.\<close>

definition new_mock_pwm_output :: "int \<Rightarrow> mock_pwm_output" where
  "new_mock_pwm_output f =
     \<lparr>mock_frequency_hz = f, duty_cycle_percent = Fin 0, started = False, mock_lock = False\<rparr>"

definition new_pwm_output :: "pwm_backend \<Rightarrow> pwm_output" where
  "new_pwm_output b = \<lparr>backend = b, received = []\<rparr>"

text \<open>
  The controller that \<^verbatim>\<open>build_registry\<close> creates under the default settings
  (\<^verbatim>\<open>gpio_backend = "mock"\<close>, \<^verbatim>\<open>pwm_frequency_hz = 800\<close>).
\<close>

definition default_led :: led_controller where
  "default_led = new_led_controller (new_pwm_output (Mock (new_mock_pwm_output 800)))"

text \<open>A controller nobody is using, on a mock backend nobody is using.\<close>

definition idle_mock :: "led_controller \<Rightarrow> bool" where
  "idle_mock c =
     (\<not> led_lock c \<and> (case backend (pwm c) of Mock m \<Rightarrow> \<not> mock_lock m | Rpi r \<Rightarrow> False))"

subsection \<open>Sequences of controller operations\<close>

datatype led_op = SetPower bool | SetBrightness pyfloat | GetState

fun perform :: "led_op \<Rightarrow> led_controller \<Rightarrow> (led_state, led_controller) outcome" where
  "perform (SetPower on) c = set_power on c"
| "perform (SetBrightness b) c = set_brightness b c"
| "perform GetState c = state c"

text \<open>
  A run in which every operation returns: the states the operations returned, in order,
  and the controller at the end; \<open>None\<close> as soon as one operation does not return.
\<close>

fun successful_run ::
  "led_op list \<Rightarrow> led_controller \<Rightarrow> (led_state list \<times> led_controller) option" where
  "successful_run [] c = Some ([], c)"
| "successful_run (x # xs) c =
     (case perform x c of
        Returned st c' \<Rightarrow>
          (case successful_run xs c' of
             Some (sts, c'') \<Rightarrow> Some (st # sts, c'')
           | None \<Rightarrow> None)
      | Raised e c' \<Rightarrow> None
      | Blocked c' \<Rightarrow> None)"

text \<open>The invariant of \<^verbatim>\<open>LedState\<close>, with the comparisons Python would evaluate.\<close>

definition led_invariant :: "led_state \<Rightarrow> bool" where
  "led_invariant s =
     ((is_on s = fl_gt (brightness s) (Fin 0))
      \<and> fl_le (Fin 0) (brightness s) \<and> fl_le (brightness s) (Fin 1))"

subsection \<open>The device registry (\<^verbatim>\<open>DeviceRegistry\<close>)\<close>

record device_info =
  info_device_id :: string
  device_type :: string

record led_device =
  device_id :: string
  controller :: led_controller

definition info :: "led_device \<Rightarrow> device_info" where
  "info d = \<lparr>info_device_id = device_id d, device_type = ''led''\<rparr>"

definition on_controller ::
  "(led_controller \<Rightarrow> ('a, led_controller) outcome) \<Rightarrow> led_device \<Rightarrow> ('a, led_device) outcome" where
  "on_controller f d = in_state (\<lambda>c. d\<lparr>controller := c\<rparr>) (f (controller d))"

definition device_state :: "led_device \<Rightarrow> (led_state, led_device) outcome" where
  "device_state = on_controller state"

definition device_set_power :: "bool \<Rightarrow> led_device \<Rightarrow> (led_state, led_device) outcome" where
  "device_set_power on = on_controller (set_power on)"

definition device_set_brightness :: "pyfloat \<Rightarrow> led_device \<Rightarrow> (led_state, led_device) outcome" where
  "device_set_brightness b = on_controller (set_brightness b)"

definition device_close :: "led_device \<Rightarrow> (unit, led_device) outcome" where
  "device_close = on_controller led_close"

text \<open>
  A Python \<^verbatim>\<open>dict\<close> keeps its keys in the order of their first insertion; assigning to a
  key that is present replaces the value in place.
\<close>

fun dict_set :: "'k \<Rightarrow> 'v \<Rightarrow> ('k \<times> 'v) list \<Rightarrow> ('k \<times> 'v) list" where
  "dict_set k v [] = [(k, v)]"
| "dict_set k v ((k', v') # kvs) =
     (if k' = k then (k, v) # kvs else (k', v') # dict_set k v kvs)"

text \<open>
  The registry owns its devices: each device, controller and backend is held by one
  entry only, so the entries are values. \<open>lookups\<close> lists the identifiers \<^verbatim>\<open>get_led\<close> has
  been called with, oldest first; like \<open>received\<close> it is bookkeeping of the model.
\<close>

record device_registry =
  reg_lock :: bool
  led_devices :: "(string \<times> led_device) list"
  lookups :: "string list"

definition new_device_registry :: device_registry where
  "new_device_registry = \<lparr>reg_lock = False, led_devices = [], lookups = []\<rparr>"

definition reg_locked :: "bool \<Rightarrow> device_registry \<Rightarrow> device_registry" where
  "reg_locked b g = g\<lparr>reg_lock := b\<rparr>"

definition register_led :: "led_device \<Rightarrow> device_registry \<Rightarrow> (unit, device_registry) outcome" where
  "register_led device =
     with_lock reg_lock reg_locked
       (\<lambda>g. Returned () (g\<lparr>led_devices := dict_set (device_id device) device (led_devices g)\<rparr>))"

definition list_devices :: "device_registry \<Rightarrow> (device_info list, device_registry) outcome" where
  "list_devices =
     with_lock reg_lock reg_locked (\<lambda>g. Returned (map (\<lambda>(k, d). info d) (led_devices g)) g)"

definition get_led :: "string \<Rightarrow> device_registry \<Rightarrow> (led_device, device_registry) outcome" where
  "get_led k g =
     with_lock reg_lock reg_locked
       (\<lambda>g. case map_of (led_devices g) k of
               None \<Rightarrow> Raised (KeyError k) g
             | Some device \<Rightarrow> Returned device g)
       (g\<lparr>lookups := lookups g @ [k]\<rparr>)"

text \<open>
  \<^verbatim>\<open>close\<close> drains the dictionary under the lock and then closes the drained devices in
  order, outside the lock. The state of the call is the registry together with the
  drained devices; a device whose \<^verbatim>\<open>close\<close> raises or never returns ends the loop.
\<close>

fun close_each :: "led_device list \<Rightarrow> (unit, led_device list) outcome" where
  "close_each [] = Returned () []"
| "close_each (device # devices) =
     (case device_close device of
        Returned u d' \<Rightarrow> in_state (\<lambda>ds. d' # ds) (close_each devices)
      | Raised e d' \<Rightarrow> Raised e (d' # devices)
      | Blocked d' \<Rightarrow> Blocked (d' # devices))"

definition registry_close ::
  "device_registry \<Rightarrow> (unit, device_registry \<times> led_device list) outcome" where
  "registry_close g =
     (case with_lock reg_lock reg_locked
             (\<lambda>g. Returned (map snd (led_devices g)) (g\<lparr>led_devices := []\<rparr>)) g of
        Returned devices g' \<Rightarrow> in_state (\<lambda>ds. (g', ds)) (close_each devices)
      | Raised e g' \<Rightarrow> Raised e (g', [])
      | Blocked g' \<Rightarrow> Blocked (g', []))"

subsection \<open>The scenario registry (\<^verbatim>\<open>ScenarioRegistry\<close>)\<close>

text \<open>
  An action is a dictionary. The model covers the wire shape of an action: the keys
  \<^verbatim>\<open>type\<close> and \<^verbatim>\<open>device_id\<close> hold strings, \<^verbatim>\<open>is_on\<close> a boolean and \<^verbatim>\<open>brightness\<close> a float, and
  each key may be missing (\<open>None\<close>). On such values \<^verbatim>\<open>str()\<close>, \<^verbatim>\<open>bool()\<close> and \<^verbatim>\<open>float()\<close>
  change nothing; values of other types are outside the model.
\<close>

record action =
  act_type :: "string option"
  act_device_id :: "string option"
  act_is_on :: "bool option"
  act_brightness :: "pyfloat option"

record scenario =
  scenario_id :: string
  name :: string
  actions :: "action list"

record scenario_registry =
  scn_lock :: bool
  scenarios :: "(string \<times> scenario) list"

definition new_scenario_registry :: scenario_registry where
  "new_scenario_registry = \<lparr>scn_lock = False, scenarios = []\<rparr>"

definition scn_locked :: "bool \<Rightarrow> scenario_registry \<Rightarrow> scenario_registry" where
  "scn_locked b g = g\<lparr>scn_lock := b\<rparr>"

definition scenario_list :: "scenario_registry \<Rightarrow> (scenario list, scenario_registry) outcome" where
  "scenario_list = with_lock scn_lock scn_locked (\<lambda>g. Returned (map snd (scenarios g)) g)"

definition upsert :: "scenario \<Rightarrow> scenario_registry \<Rightarrow> (unit, scenario_registry) outcome" where
  "upsert s =
     with_lock scn_lock scn_locked
       (\<lambda>g. Returned () (g\<lparr>scenarios := dict_set (scenario_id s) s (scenarios g)\<rparr>))"

definition scenario_get :: "string \<Rightarrow> scenario_registry \<Rightarrow> (scenario, scenario_registry) outcome" where
  "scenario_get k =
     with_lock scn_lock scn_locked
       (\<lambda>g. case map_of (scenarios g) k of
               None \<Rightarrow> Raised (KeyError k) g
             | Some s \<Rightarrow> Returned s g)"

subsection \<open>Triggering a scenario (\<^verbatim>\<open>trigger_scenario\<close>)\<close>

text \<open>
  \<^verbatim>\<open>str.strip()\<close> removes leading and trailing whitespace. A character here is a code
  point below 256; of these, Python's \<^verbatim>\<open>str.isspace\<close> holds for the codes 9 to 13, 28 to
  32, 133 (next line) and 160 (no-break space). Code points from 256 on are outside the
  model.
\<close>

definition is_space :: "char \<Rightarrow> bool" where
  "is_space c = (of_char c \<in> {9, 10, 11, 12, 13, 28, 29, 30, 31, 32, 133, 160 :: nat})"

definition strip :: "string \<Rightarrow> string" where
  "strip s = rev (dropWhile is_space (rev (dropWhile is_space s)))"

text \<open>The locals \<^verbatim>\<open>action_type\<close> and \<^verbatim>\<open>device_id\<close> of the loop body.\<close>

definition action_type :: "action \<Rightarrow> string" where
  "action_type a = strip (case act_type a of None \<Rightarrow> '''' | Some s \<Rightarrow> s)"

definition action_device_id :: "action \<Rightarrow> string" where
  "action_device_id a = strip (case act_device_id a of None \<Rightarrow> '''' | Some s \<Rightarrow> s)"

record executed_action =
  ex_type :: string
  ex_device_id :: string
  ex_state :: led_state

text \<open>
  \<^verbatim>\<open>devices.get_led(device_id).method(...)\<close>: the method mutates the device that the
  registry holds, so its effect is written back under the same key.
\<close>

definition on_device ::
  "string \<Rightarrow> (led_device \<Rightarrow> ('a, led_device) outcome) \<Rightarrow> device_registry \<Rightarrow>
   ('a, device_registry) outcome" where
  "on_device k f g =
     and_then (get_led k g)
       (\<lambda>d g'. in_state (\<lambda>d'. g'\<lparr>led_devices := dict_set k d' (led_devices g')\<rparr>) (f d))"

text \<open>One iteration of the loop over \<^verbatim>\<open>scenario.actions\<close>; \<open>executed\<close> is the list so far.\<close>

definition perform_action ::
  "action \<Rightarrow> executed_action list \<Rightarrow> device_registry \<Rightarrow>
   (executed_action list, device_registry) outcome" where
  "perform_action a executed devices =
     (if action_device_id a = [] then Returned executed devices
      else if action_type a = ''set_power'' then
        (let on = (case act_is_on a of None \<Rightarrow> False | Some b \<Rightarrow> b)
         in and_then (on_device (action_device_id a) (device_set_power on) devices)
              (\<lambda>st devices'.
                 Returned (executed @ [\<lparr>ex_type = action_type a,
                                        ex_device_id = action_device_id a,
                                        ex_state = st\<rparr>]) devices'))
      else if action_type a = ''set_brightness'' then
        (let b = (case act_brightness a of None \<Rightarrow> Fin 0 | Some x \<Rightarrow> x)
         in and_then (on_device (action_device_id a) (device_set_brightness b) devices)
              (\<lambda>st devices'.
                 Returned (executed @ [\<lparr>ex_type = action_type a,
                                        ex_device_id = action_device_id a,
                                        ex_state = st\<rparr>]) devices'))
      else Returned executed devices)"

fun run_actions ::
  "action list \<Rightarrow> executed_action list \<Rightarrow> device_registry \<Rightarrow>
   (executed_action list, device_registry) outcome" where
  "run_actions [] executed devices = Returned executed devices"
| "run_actions (a # as) executed devices =
     and_then (perform_action a executed devices) (run_actions as)"

text \<open>
  The handler works on \<^verbatim>\<open>app.state.scenarios\<close> and \<^verbatim>\<open>app.state.registry\<close>. An unknown
  scenario becomes the HTTP error 404; any other exception propagates as it is.
\<close>

record app_state =
  app_scenarios :: scenario_registry
  app_registry :: device_registry

record trigger_result =
  res_scenario_id :: string
  res_executed :: "executed_action list"

definition trigger_scenario :: "string \<Rightarrow> app_state \<Rightarrow> (trigger_result, app_state) outcome" where
  "trigger_scenario sid app =
     (case scenario_get sid (app_scenarios app) of
        Raised e g \<Rightarrow>
          (case e of
             KeyError k \<Rightarrow> Raised (HTTPException 404 ''Not found'') (app\<lparr>app_scenarios := g\<rparr>)
           | HTTPException n m \<Rightarrow> Raised e (app\<lparr>app_scenarios := g\<rparr>)
           | HardwareError \<Rightarrow> Raised e (app\<lparr>app_scenarios := g\<rparr>))
      | Blocked g \<Rightarrow> Blocked (app\<lparr>app_scenarios := g\<rparr>)
      | Returned s g \<Rightarrow>
          (case run_actions (actions s) [] (app_registry app) of
             Returned executed devices \<Rightarrow>
               Returned \<lparr>res_scenario_id = scenario_id s, res_executed = executed\<rparr>
                 (app\<lparr>app_scenarios := g, app_registry := devices\<rparr>)
           | Raised e devices \<Rightarrow> Raised e (app\<lparr>app_scenarios := g, app_registry := devices\<rparr>)
           | Blocked devices \<Rightarrow> Blocked (app\<lparr>app_scenarios := g, app_registry := devices\<rparr>)))"

text \<open>
  The application that \<^verbatim>\<open>create_app\<close> builds under the default settings: one mock-backed
  device \<^verbatim>\<open>nightlight\<close> and no scenario; and the same with a device named \<^verbatim>\<open>x\<close>.
\<close>

definition registry_with :: "string \<Rightarrow> device_registry" where
  "registry_with k =
     final_state (register_led \<lparr>device_id = k, controller = default_led\<rparr> new_device_registry)"

definition app_with :: "string \<Rightarrow> scenario \<Rightarrow> app_state" where
  "app_with k s =
     \<lparr>app_scenarios = final_state (upsert s new_scenario_registry), app_registry = registry_with k\<rparr>"

text \<open>
  A hardware backend as its constructor leaves it when the driver is present: the lock
  free, the PWM not started, no driver call made since. \<open>hardware_led\<close> is a controller
  on pin 18 whose driver never raises, and \<open>mixed_registry\<close> is the registry after
  registering that controller as \<^verbatim>\<open>lamp\<close> and then a mock-backed \<^verbatim>\<open>x\<close>.
\<close>

definition new_rpi_pwm_output ::
  "int \<Rightarrow> int \<Rightarrow> (gpio_call list \<Rightarrow> gpio_call \<Rightarrow> bool) \<Rightarrow> rpi_pwm_output" where
  "new_rpi_pwm_output p f drv =
     \<lparr>pin = p, rpi_frequency_hz = f, rpi_lock = False, gpio_calls = [], gpio_raises = drv,
      rpi_started = False\<rparr>"

definition hardware_led :: led_controller where
  "hardware_led =
     new_led_controller (new_pwm_output (Rpi (new_rpi_pwm_output 18 800 (\<lambda>h c. False))))"

definition mixed_registry :: device_registry where
  "mixed_registry =
     final_state
       (and_then (register_led \<lparr>device_id = ''lamp'', controller = hardware_led\<rparr> new_device_registry)
          (\<lambda>u. register_led \<lparr>device_id = ''x'', controller = default_led\<rparr>))"

subsection \<open>Notions of the specification\<close>

text \<open>
  The following definitions are not translations of the source; they state the
  specification's notions, against which the translated functions are compared.

  A device drained by \<^verbatim>\<open>DeviceRegistry.close\<close> has been closed when, since the call began,
  its backend has received exactly one \<^verbatim>\<open>stop\<close> followed by one \<^verbatim>\<open>close\<close>.
\<close>

definition closed_from :: "led_device \<Rightarrow> led_device \<Rightarrow> bool" where
  "closed_from d d' =
     (device_id d' = device_id d
      \<and> received (pwm (controller d')) = received (pwm (controller d)) @ [Stop, Close])"

text \<open>
  A registry is ready when nobody holds its lock and every controller in it is idle on a
  mock backend: the setting of the specification's testable properties.
\<close>

definition ready :: "device_registry \<Rightarrow> bool" where
  "ready g = (\<not> reg_lock g \<and> list_all (\<lambda>d. idle_mock (controller d)) (map snd (led_devices g)))"

text \<open>
  The specification's rule for the trigger: an action is dispatched when its
  \<^verbatim>\<open>device_id\<close> is not empty after trimming and its \<^verbatim>\<open>type\<close> is one of the known kinds;
  every other action is skipped.
\<close>

definition dispatched :: "action \<Rightarrow> bool" where
  "dispatched a =
     (action_device_id a \<noteq> [] \<and> (action_type a = ''set_power'' \<or> action_type a = ''set_brightness''))"

text \<open>The record \<^verbatim>\<open>{type, device_id, state}\<close> a dispatched action adds to the result.\<close>

definition entry_for :: "action \<Rightarrow> led_state \<Rightarrow> executed_action" where
  "entry_for a st = \<lparr>ex_type = action_type a, ex_device_id = action_device_id a, ex_state = st\<rparr>"

subsection \<open>Example scenarios\<close>

text \<open>
  The scenario of the specification whose first action is malformed, and one whose
  second action names a device that is not registered.
\<close>

definition mk_action :: "string \<Rightarrow> string \<Rightarrow> bool option \<Rightarrow> pyfloat option \<Rightarrow> action" where
  "mk_action t k on b = \<lparr>act_type = Some t, act_device_id = Some k, act_is_on = on, act_brightness = b\<rparr>"

definition skipping_example :: scenario where
  "skipping_example =
     \<lparr>scenario_id = ''s'', name = ''example'',
      actions = [mk_action ''noop'' '''' None None, mk_action ''set_power'' ''x'' (Some True) None]\<rparr>"

definition abort_example :: scenario where
  "abort_example =
     \<lparr>scenario_id = ''s'', name = ''example'',
      actions = [mk_action ''set_power'' ''x'' (Some True) None,
                 mk_action ''set_power'' ''ghost'' (Some True) None,
                 mk_action ''set_power'' ''x'' (Some False) None]\<rparr>"

text \<open>The device \<^verbatim>\<open>x\<close> of \<open>registry_with\<close> after one \<^verbatim>\<open>set_power(True)\<close>, and its registry.\<close>

definition lit_x :: led_device where
  "lit_x =
     \<lparr>device_id = ''x'',
      controller = default_led
        \<lparr>pwm := (pwm default_led)
           \<lparr>received := [ChangeDutyCycle (Fin 100)],
            backend := Mock ((new_mock_pwm_output 800)
                        \<lparr>started := True, duty_cycle_percent := Fin 100, mock_lock := False\<rparr>)\<rparr>,
         cur_is_on := True, cur_brightness := Fin 1, led_lock := False\<rparr>\<rparr>"

definition lit_registry :: device_registry where
  "lit_registry = \<lparr>reg_lock = False, led_devices = [(''x'', lit_x)], lookups = [''x'']\<rparr>"

section \<open>Properties\<close>

subsection \<open>Closing the hardware backend\<close>

text \<open>
  C2. The claim: for the hardware backend, \<^verbatim>\<open>close()\<close> attempts \<^verbatim>\<open>stop\<close> first, then
  releases the pin (GPIO cleanup) even if \<^verbatim>\<open>stop\<close> was skipped or raised, and the call
  completes.

  The code does not do this. \<^verbatim>\<open>RpiPwmOutput.close\<close> takes \<^verbatim>\<open>self._lock\<close> and, holding it,
  calls \<^verbatim>\<open>self.stop()\<close>, which takes the same lock; a \<^verbatim>\<open>threading.Lock\<close> is not reentrant.
  From every state in which the lock is free, \<^verbatim>\<open>close()\<close> never returns: it is left
  waiting with the lock held, and the driver has received no call at all, neither the
  stop of the PWM nor the cleanup of the pin.
\<close>

theorem rpi_close_never_returns:
  "rpi_close (r\<lparr>rpi_lock := False\<rparr>) = Blocked (r\<lparr>rpi_lock := True\<rparr>)"
  by (simp add: rpi_close_def rpi_stop_def with_lock_def try_finally_def rpi_locked_def)


subsection \<open>Floats and outcomes\<close>

lemma fl_gt_not_le: "fl_gt a (Fin 0) \<Longrightarrow> \<not> fl_le a (Fin 0)"
  by (cases a) (auto simp: fl_gt_def fl_le_def)

lemma between_is_finite:
  "fl_le (Fin lo) b \<Longrightarrow> fl_le b (Fin hi) \<Longrightarrow> \<exists>r. b = Fin r \<and> lo \<le> r \<and> r \<le> hi"
  by (cases b) (auto simp: fl_le_def)

lemma clamp_unit_Fin: "clamp (Fin r) (Fin 0) (Fin 1) = Fin (max 0 (min 1 r))"
  by (auto simp: clamp_def fl_gt_def)

lemma clamp_unit_invariant:
  "b \<noteq> NaN \<Longrightarrow> v = clamp b (Fin 0) (Fin 1) \<Longrightarrow>
   fl_le (Fin 0) v \<and> fl_le v (Fin 1) \<and> (fl_eq v (Fin 0) \<longleftrightarrow> \<not> fl_gt v (Fin 0))"
  by (cases b) (auto simp: clamp_def fl_le_def fl_gt_def)

lemma final_state_in_state: "final_state (in_state f x) = f (final_state x)"
  by (cases x) simp_all

lemma final_state_with_lock:
  "\<not> held s \<Longrightarrow> (\<And>b t. proj (set_held b t) = proj t) \<Longrightarrow>
   proj (final_state (with_lock held set_held body s)) = proj (final_state (body (set_held True s)))"
  by (cases "body (set_held True s)") (simp_all add: with_lock_def)

lemma with_lock_Returned:
  "with_lock held set_held body s = Returned a s' \<longleftrightarrow>
   (\<not> held s \<and> (\<exists>t. body (set_held True s) = Returned a t \<and> s' = set_held False t))"
  by (cases "body (set_held True s)") (auto simp: with_lock_def)

lemma and_then_Returned:
  "and_then x k = Returned b s' \<longleftrightarrow> (\<exists>a s. x = Returned a s \<and> k a s = Returned b s')"
  by (cases x) auto

lemma in_state_Returned:
  "in_state f x = Returned a t \<longleftrightarrow> (\<exists>s. x = Returned a s \<and> t = f s)"
  by (cases x) auto

lemma on_pwm_Returned:
  "on_pwm f c = Returned a c' \<longleftrightarrow> (\<exists>p. f (pwm c) = Returned a p \<and> c' = c\<lparr>pwm := p\<rparr>)"
  by (auto simp: on_pwm_def in_state_Returned)

lemmas Returned_iffs = with_lock_Returned and_then_Returned on_pwm_Returned

subsection \<open>The backends behind the protocol\<close>

text \<open>Every call is recorded at the protocol boundary, whatever its outcome.\<close>

lemma received_after_dispatch:
  "received (final_state (pwm_dispatch c f g p)) = received p @ [c]"
  apply (simp add: pwm_dispatch_def Let_def split: pwm_backend.splits)
  apply (intro conjI allI impI)
  subgoal for m by (cases "f m") simp_all
  subgoal for r by (cases "g r") simp_all
  done

lemma received_after_stop: "received (final_state (pwm_stop p)) = received p @ [Stop]"
  by (simp add: pwm_stop_def received_after_dispatch)

lemma received_after_change:
  "received (final_state (pwm_change_duty_cycle d p)) = received p @ [ChangeDutyCycle d]"
  by (simp add: pwm_change_duty_cycle_def received_after_dispatch)

lemma mock_stop_free:
  "\<not> mock_lock m \<Longrightarrow>
   mock_stop m =
     Returned () (m\<lparr>started := False, duty_cycle_percent := Fin 0, mock_lock := False\<rparr>)"
  by (simp add: mock_stop_def with_lock_def mock_locked_def)

lemma mock_change_duty_cycle_free:
  "\<not> mock_lock m \<Longrightarrow>
   mock_change_duty_cycle d m =
     Returned () (m\<lparr>started := True, duty_cycle_percent := d, mock_lock := False\<rparr>)"
  by (simp add: mock_change_duty_cycle_def with_lock_def mock_locked_def Let_def)

lemma pwm_stop_mock:
  "backend p = Mock m \<Longrightarrow> \<not> mock_lock m \<Longrightarrow>
   pwm_stop p = Returned ()
     (p\<lparr>received := received p @ [Stop],
        backend := Mock (m\<lparr>started := False, duty_cycle_percent := Fin 0, mock_lock := False\<rparr>)\<rparr>)"
  by (simp add: pwm_stop_def pwm_dispatch_def mock_stop_free)

lemma pwm_change_duty_cycle_mock:
  "backend p = Mock m \<Longrightarrow> \<not> mock_lock m \<Longrightarrow>
   pwm_change_duty_cycle d p = Returned ()
     (p\<lparr>received := received p @ [ChangeDutyCycle d],
        backend := Mock (m\<lparr>started := True, duty_cycle_percent := d, mock_lock := False\<rparr>)\<rparr>)"
  by (simp add: pwm_change_duty_cycle_def pwm_dispatch_def mock_change_duty_cycle_free)

lemma pwm_close_mock:
  "backend p = Mock m \<Longrightarrow>
   pwm_close p = Returned () (p\<lparr>received := received p @ [Close], backend := Mock m\<rparr>)"
  by (simp add: pwm_close_def pwm_dispatch_def mock_close_def)

subsection \<open>The controller's transitions\<close>

text \<open>The one backend call a transition makes, whatever comes of it.\<close>

lemma pwm_final_on_pwm_then:
  "(\<And>a c'. pwm (final_state (k a c')) = pwm c') \<Longrightarrow>
   pwm (final_state (and_then (on_pwm f c) k)) = final_state (f (pwm c))"
  by (cases "f (pwm c)") (simp_all add: on_pwm_def)

lemma pwm_final_set_brightness:
  assumes "\<not> led_lock c"
  shows "pwm (final_state (set_brightness b c)) =
         final_state ((if fl_eq (clamp b (Fin 0) (Fin 1)) (Fin 0) then pwm_stop
                       else pwm_change_duty_cycle (fl_mul (clamp b (Fin 0) (Fin 1)) (Fin 100)))
                      (pwm c))"
  unfolding set_brightness_def
  apply (subst final_state_with_lock[where proj = pwm])
  using assms apply simp
   apply (simp add: led_locked_def)
  apply (simp add: Let_def led_locked_def apply_duty_def pwm_final_on_pwm_then)
  done

lemma pwm_final_set_power:
  assumes "\<not> led_lock c"
  shows "pwm (final_state (set_power on c)) =
         final_state ((if on then pwm_change_duty_cycle
                          (fl_mul (if fl_le (cur_brightness c) (Fin 0) then Fin 1
                                   else cur_brightness c) (Fin 100))
                       else pwm_stop)
                      (pwm c))"
  unfolding set_power_def
  apply (subst final_state_with_lock[where proj = pwm])
  using assms apply simp
   apply (simp add: led_locked_def)
  apply (simp add: Let_def led_locked_def apply_duty_def pwm_final_on_pwm_then)
  done

text \<open>What a transition that returns has done to the controller.\<close>

lemma set_brightness_returned:
  assumes "set_brightness b c = Returned st c'"
  shows "st = \<lparr>is_on = \<not> fl_eq (clamp b (Fin 0) (Fin 1)) (Fin 0),
               brightness = (if fl_eq (clamp b (Fin 0) (Fin 1)) (Fin 0) then Fin 0
                             else clamp b (Fin 0) (Fin 1))\<rparr>"
    and "cur_is_on c' = is_on st" and "cur_brightness c' = clamp b (Fin 0) (Fin 1)"
    and "\<not> led_lock c'"
  using assms
  by (auto simp: set_brightness_def Returned_iffs Let_def led_locked_def apply_duty_def
      split: if_splits)

lemma set_power_returned:
  assumes "set_power on c = Returned st c'"
  shows "st = (if on then \<lparr>is_on = True,
                  brightness = (if fl_le (cur_brightness c) (Fin 0) then Fin 1
                                else cur_brightness c)\<rparr>
               else \<lparr>is_on = False, brightness = Fin 0\<rparr>)"
    and "snapshot c' = st" and "\<not> led_lock c'"
  using assms
  by (auto simp: set_power_def Returned_iffs Let_def led_locked_def apply_duty_def snapshot_def
      split: if_splits)

lemma state_returned:
  "state c = Returned st c' \<longleftrightarrow> (\<not> led_lock c \<and> st = snapshot c \<and> c' = c)"
  by (auto simp: state_def Returned_iffs led_locked_def snapshot_def)

lemma state_free: "\<not> led_lock c \<Longrightarrow> state c = Returned (snapshot c) c"
  by (simp add: state_returned)

text \<open>On an idle mock backend every transition returns; the results in full.\<close>

lemma idle_mockE:
  assumes "idle_mock c"
  obtains m where "\<not> led_lock c" "backend (pwm c) = Mock m" "\<not> mock_lock m"
  using assms by (auto simp: idle_mock_def split: pwm_backend.splits)

lemma set_power_off_mock:
  assumes "\<not> led_lock c" "backend (pwm c) = Mock m" "\<not> mock_lock m"
  shows "set_power False c =
           Returned \<lparr>is_on = False, brightness = Fin 0\<rparr>
             (c\<lparr>pwm := (pwm c)\<lparr>received := received (pwm c) @ [Stop],
                     backend := Mock (m\<lparr>started := False, duty_cycle_percent := Fin 0,
                                        mock_lock := False\<rparr>)\<rparr>,
                cur_is_on := False, cur_brightness := Fin 0, led_lock := False\<rparr>)"
  using assms
  by (simp add: set_power_def with_lock_def led_locked_def on_pwm_def pwm_stop_mock snapshot_def)

lemma set_power_on_mock:
  assumes "\<not> led_lock c" "backend (pwm c) = Mock m" "\<not> mock_lock m"
    and "b' = (if fl_le (cur_brightness c) (Fin 0) then Fin 1 else cur_brightness c)"
  shows "set_power True c =
           Returned \<lparr>is_on = True, brightness = b'\<rparr>
             (c\<lparr>pwm := (pwm c)\<lparr>received := received (pwm c) @ [ChangeDutyCycle (fl_mul b' (Fin 100))],
                     backend := Mock (m\<lparr>started := True, duty_cycle_percent := fl_mul b' (Fin 100),
                                        mock_lock := False\<rparr>)\<rparr>,
                cur_is_on := True, cur_brightness := b', led_lock := False\<rparr>)"
  using assms
  by (simp add: set_power_def with_lock_def led_locked_def on_pwm_def apply_duty_def
      pwm_change_duty_cycle_mock snapshot_def)

lemma set_brightness_mock:
  assumes "\<not> led_lock c" "backend (pwm c) = Mock m" "\<not> mock_lock m"
    and "v = clamp b (Fin 0) (Fin 1)"
  shows "set_brightness b c =
           (if fl_eq v (Fin 0)
            then Returned \<lparr>is_on = False, brightness = Fin 0\<rparr>
              (c\<lparr>pwm := (pwm c)\<lparr>received := received (pwm c) @ [Stop],
                     backend := Mock (m\<lparr>started := False, duty_cycle_percent := Fin 0,
                                        mock_lock := False\<rparr>)\<rparr>,
                 cur_is_on := False, cur_brightness := v, led_lock := False\<rparr>)
            else Returned \<lparr>is_on = True, brightness = v\<rparr>
              (c\<lparr>pwm := (pwm c)\<lparr>received := received (pwm c) @ [ChangeDutyCycle (fl_mul v (Fin 100))],
                     backend := Mock (m\<lparr>started := True, duty_cycle_percent := fl_mul v (Fin 100),
                                        mock_lock := False\<rparr>)\<rparr>,
                 cur_is_on := True, cur_brightness := v, led_lock := False\<rparr>))"
  using assms
  by (simp add: set_brightness_def with_lock_def led_locked_def on_pwm_def apply_duty_def
      pwm_stop_mock pwm_change_duty_cycle_mock Let_def)

lemma set_brightness_mock_returns:
  assumes "idle_mock c"
  shows "\<exists>st c'. set_brightness b c = Returned st c' \<and> idle_mock c'"
proof -
  from assms obtain m where m: "\<not> led_lock c" "backend (pwm c) = Mock m" "\<not> mock_lock m"
    by (rule idle_mockE)
  show ?thesis
    by (simp add: set_brightness_mock[OF m refl] idle_mock_def)
qed

lemma set_power_mock_returns:
  assumes "idle_mock c"
  shows "\<exists>st c'. set_power on c = Returned st c' \<and> idle_mock c'"
proof -
  from assms obtain m where m: "\<not> led_lock c" "backend (pwm c) = Mock m" "\<not> mock_lock m"
    by (rule idle_mockE)
  show ?thesis
    by (cases on) (simp_all add: set_power_on_mock[OF m refl] set_power_off_mock[OF m] idle_mock_def)
qed

lemmas new_defs = new_led_controller_def new_pwm_output_def new_mock_pwm_output_def

lemma default_led_idle: "idle_mock default_led"
  by (simp add: idle_mock_def default_led_def new_defs)

subsection \<open>The invariant of the observable state\<close>

lemma initial_invariant: "led_invariant (snapshot (new_led_controller p))"
  by (simp add: led_invariant_def snapshot_def new_led_controller_def fl_le_def fl_gt_def)

lemma perform_keeps_invariant:
  assumes "perform x c = Returned st c'" and "x \<noteq> SetBrightness NaN"
    and "led_invariant (snapshot c)"
  shows "led_invariant st \<and> led_invariant (snapshot c')"
proof (cases x)
  case (SetPower on)
  with assms have r: "set_power on c = Returned st c'" by simp
  from assms(3) have "fl_le (cur_brightness c) (Fin 0) \<or> fl_gt (cur_brightness c) (Fin 0)"
    by (cases "cur_brightness c") (auto simp: led_invariant_def snapshot_def fl_le_def fl_gt_def)
  with assms(3) set_power_returned[OF r] show ?thesis
    by (cases on) (auto simp: led_invariant_def snapshot_def fl_le_def fl_gt_def)
next
  case (SetBrightness b)
  with assms have r: "set_brightness b c = Returned st c'" and b: "b \<noteq> NaN" by auto
  from clamp_unit_invariant[OF b refl] set_brightness_returned[OF r] show ?thesis
    by (cases "clamp b (Fin 0) (Fin 1)") (auto simp: led_invariant_def snapshot_def fl_le_def fl_gt_def)
next
  case GetState
  with assms show ?thesis by (auto simp: state_returned)
qed

text \<open>
  As long as no \<^verbatim>\<open>set_brightness\<close> is given NaN, every state returned along a run of
  successful operations satisfies the invariant, and so does the state at its end.
\<close>

lemma led_invariant_without_nan:
  assumes "successful_run xs c = Some (sts, c')" and "SetBrightness NaN \<notin> set xs"
    and "led_invariant (snapshot c)"
  shows "(\<forall>st \<in> set sts. led_invariant st) \<and> led_invariant (snapshot c')"
  using assms
proof (induction xs arbitrary: c sts)
  case Nil
  then show ?case by simp
next
  case (Cons x xs)
  from Cons.prems(1) obtain st c1 sts' where
    p: "perform x c = Returned st c1" and r: "successful_run xs c1 = Some (sts', c')"
    and s: "sts = st # sts'"
    by (auto split: outcome.splits option.splits)
  from Cons.prems(2) have "x \<noteq> SetBrightness NaN" by auto
  from perform_keeps_invariant[OF p this Cons.prems(3)]
  have i: "led_invariant st" "led_invariant (snapshot c1)" by simp_all
  from Cons.prems(2) have "SetBrightness NaN \<notin> set xs" by simp
  from Cons.IH[OF r this i(2)] i(1) s show ?case by simp
qed

text \<open>
  C1. The claim: along every sequence of successful controller operations from the
  initial state, the observable state satisfies \<^verbatim>\<open>is_on == (brightness > 0)\<close> and
  \<^verbatim>\<open>0 <= brightness <= 1\<close>.

  The code breaks it at NaN, which \<^verbatim>\<open>_clamp\<close> lets through because both of its comparisons
  are false: on a fresh controller with a mock backend, \<^verbatim>\<open>set_brightness(float("nan"))\<close>
  returns, and it and the \<^verbatim>\<open>state()\<close> after it report \<^verbatim>\<open>is_on = True\<close> with a brightness
  of NaN, which is neither positive nor within 0..1.
\<close>

theorem nan_breaks_led_invariant:
  "map_option fst
     (successful_run [SetBrightness NaN, GetState]
        (new_led_controller (new_pwm_output (Mock (new_mock_pwm_output 800)))))
     = Some [\<lparr>is_on = True, brightness = NaN\<rparr>, \<lparr>is_on = True, brightness = NaN\<rparr>]
   \<and> \<not> led_invariant \<lparr>is_on = True, brightness = NaN\<rparr>"
  by (simp add: new_defs set_brightness_mock[OF _ _ _ refl] state_free clamp_def fl_gt_def
      snapshot_def led_invariant_def fl_le_def)

subsection \<open>Brightness\<close>

text \<open>
  C6. For every \<open>b\<close> with \<^verbatim>\<open>-1 <= b <= 2\<close>, on a controller whose lock is free:
  \<open>b\<close> is a finite number and \<^verbatim>\<open>_clamp(b, 0, 1)\<close> is \<open>max 0 (min 1 b)\<close>; the backend
  receives exactly one call, \<^verbatim>\<open>stop()\<close> when the clamped value is 0 and otherwise
  \<^verbatim>\<open>change_duty_cycle\<close> with the clamped value times 100; if \<^verbatim>\<open>set_brightness(b)\<close>
  returns, the \<^verbatim>\<open>state()\<close> after it returns the same state, whose brightness is the
  clamped value and whose \<^verbatim>\<open>is_on\<close> says whether that value is positive; and on an idle
  mock backend \<^verbatim>\<open>set_brightness(b)\<close> does return.
\<close>

theorem set_brightness_clamps:
  assumes "fl_le (Fin (- 1)) b" and "fl_le b (Fin 2)" and "\<not> led_lock c"
  shows "(\<exists>r. b = Fin r \<and> clamp b (Fin 0) (Fin 1) = Fin (max 0 (min 1 r)))
       \<and> received (pwm (final_state (set_brightness b c))) =
           received (pwm c) @
             [if clamp b (Fin 0) (Fin 1) = Fin 0 then Stop
              else ChangeDutyCycle (fl_mul (clamp b (Fin 0) (Fin 1)) (Fin 100))]
       \<and> (\<forall>st c'. set_brightness b c = Returned st c' \<longrightarrow>
             state c' = Returned st c'
           \<and> brightness st = clamp b (Fin 0) (Fin 1)
           \<and> is_on st = fl_gt (clamp b (Fin 0) (Fin 1)) (Fin 0))
       \<and> (idle_mock c \<longrightarrow> (\<exists>st c'. set_brightness b c = Returned st c'))"
proof -
  from between_is_finite[OF assms(1,2)] obtain r where r: "b = Fin r" by blast
  define v where "v = clamp b (Fin 0) (Fin 1)"
  have v: "v = Fin (max 0 (min 1 r))" by (simp add: v_def r clamp_unit_Fin)
  have z: "fl_eq v (Fin 0) \<longleftrightarrow> v = Fin 0" by (simp add: v)
  have g: "fl_gt v (Fin 0) \<longleftrightarrow> v \<noteq> Fin 0" by (auto simp: v fl_gt_def)
  have 1: "\<exists>r. b = Fin r \<and> v = Fin (max 0 (min 1 r))" using r v by blast
  have 2: "received (pwm (final_state (set_brightness b c))) =
           received (pwm c) @ [if v = Fin 0 then Stop else ChangeDutyCycle (fl_mul v (Fin 100))]"
    using z
    by (simp add: pwm_final_set_brightness[OF assms(3)] v_def received_after_stop
        received_after_change)
  have 3: "state c' = Returned st c' \<and> brightness st = v \<and> is_on st = fl_gt v (Fin 0)"
    if "set_brightness b c = Returned st c'" for st c'
    using set_brightness_returned[OF that] z g
    by (auto simp: state_returned snapshot_def v_def)
  have 4: "idle_mock c \<longrightarrow> (\<exists>st c'. set_brightness b c = Returned st c')"
    using set_brightness_mock_returns by blast
  from 1 2 3 4 show ?thesis unfolding v_def by blast
qed

theorem set_brightness_clamps_witness:
  "fl_le (Fin (- 1)) (Fin 1.5) \<and> fl_le (Fin 1.5) (Fin 2) \<and> \<not> led_lock default_led
   \<and> idle_mock default_led
   \<and> clamp (Fin 1.5) (Fin 0) (Fin 1) = Fin 1
   \<and> received (pwm (final_state (set_brightness (Fin 1.5) default_led))) = [ChangeDutyCycle (Fin 100)]
   \<and> (\<exists>c'. set_brightness (Fin 1.5) default_led = Returned \<lparr>is_on = True, brightness = Fin 1\<rparr> c'
           \<and> state c' = Returned \<lparr>is_on = True, brightness = Fin 1\<rparr> c')"
proof -
  have h: "fl_le (Fin (- 1)) (Fin 1.5)" "fl_le (Fin 1.5) (Fin 2)" "\<not> led_lock default_led"
    by (simp_all add: fl_le_def default_led_def new_defs)
  note i = default_led_idle
  have c: "clamp (Fin 1.5) (Fin 0) (Fin 1) = Fin 1" by (simp add: clamp_def fl_gt_def)
  have p: "received (pwm default_led) = []" by (simp add: default_led_def new_defs)
  from set_brightness_clamps[OF h] i
  have "received (pwm (final_state (set_brightness (Fin 1.5) default_led))) = [ChangeDutyCycle (Fin 100)]
      \<and> (\<exists>c'. set_brightness (Fin 1.5) default_led = Returned \<lparr>is_on = True, brightness = Fin 1\<rparr> c'
           \<and> state c' = Returned \<lparr>is_on = True, brightness = Fin 1\<rparr> c')"
    unfolding c by (auto simp: p fl_gt_def)
  with h i c show ?thesis by blast
qed

subsection \<open>Power\<close>

text \<open>
  C7. On a controller whose lock is free, \<^verbatim>\<open>set_power(True)\<close> makes exactly one backend
  call, \<^verbatim>\<open>change_duty_cycle(brightness * 100)\<close>. When the current brightness is \<open>\<le> 0\<close>
  the brightness becomes exactly 1.0 and the duty is 100; when it is positive the
  brightness is left unchanged. If the call returns, it returns the state ON with that
  brightness, which is also what \<^verbatim>\<open>state()\<close> then returns; on an idle mock backend it
  does return.
\<close>

theorem set_power_on_defaults_to_full:
  assumes "\<not> led_lock c"
  shows "(fl_le (cur_brightness c) (Fin 0) \<longrightarrow>
            received (pwm (final_state (set_power True c))) =
              received (pwm c) @ [ChangeDutyCycle (Fin 100)]
          \<and> (\<forall>st c'. set_power True c = Returned st c' \<longrightarrow>
                st = \<lparr>is_on = True, brightness = Fin 1\<rparr> \<and> state c' = Returned st c'))
       \<and> (fl_gt (cur_brightness c) (Fin 0) \<longrightarrow>
            received (pwm (final_state (set_power True c))) =
              received (pwm c) @ [ChangeDutyCycle (fl_mul (cur_brightness c) (Fin 100))]
          \<and> (\<forall>st c'. set_power True c = Returned st c' \<longrightarrow>
                st = \<lparr>is_on = True, brightness = cur_brightness c\<rparr> \<and> state c' = Returned st c'))
       \<and> (idle_mock c \<longrightarrow> (\<exists>st c'. set_power True c = Returned st c'))"
proof -
  have s: "state c' = Returned st c'" if "set_power True c = Returned st c'" for st c'
    using set_power_returned(2,3)[OF that] by (simp add: state_returned)
  have 1: ?thesis if "fl_le (cur_brightness c) (Fin 0)"
    using that fl_gt_not_le[of "cur_brightness c"] set_power_mock_returns[of c True] s
    by (auto simp: pwm_final_set_power[OF assms] received_after_change dest: set_power_returned(1))
  have 2: ?thesis if "\<not> fl_le (cur_brightness c) (Fin 0)"
    using that set_power_mock_returns[of c True] s
    by (auto simp: pwm_final_set_power[OF assms] received_after_change dest: set_power_returned(1))
  from 1 2 show ?thesis by blast
qed

theorem set_power_on_defaults_to_full_witness:
  "\<not> led_lock default_led \<and> fl_le (cur_brightness default_led) (Fin 0) \<and> idle_mock default_led
   \<and> received (pwm (final_state (set_power True default_led))) = [ChangeDutyCycle (Fin 100)]
   \<and> (\<exists>c'. set_power True default_led = Returned \<lparr>is_on = True, brightness = Fin 1\<rparr> c'
           \<and> state c' = Returned \<lparr>is_on = True, brightness = Fin 1\<rparr> c')"
proof -
  have h: "\<not> led_lock default_led" by (simp add: default_led_def new_defs)
  have b: "fl_le (cur_brightness default_led) (Fin 0)"
    by (simp add: default_led_def new_defs fl_le_def)
  note i = default_led_idle
  have p: "received (pwm default_led) = []" by (simp add: default_led_def new_defs)
  from set_power_on_defaults_to_full[OF h] b i
  have "received (pwm (final_state (set_power True default_led))) = [ChangeDutyCycle (Fin 100)]
      \<and> (\<exists>c'. set_power True default_led = Returned \<lparr>is_on = True, brightness = Fin 1\<rparr> c'
           \<and> state c' = Returned \<lparr>is_on = True, brightness = Fin 1\<rparr> c')"
    by (auto simp: p)
  with h b i show ?thesis by blast
qed

text \<open>
  C8. From any state of a controller on an idle mock backend, two consecutive
  \<^verbatim>\<open>set_power(False)\<close> calls both return \<^verbatim>\<open>{is_on: False, brightness: 0}\<close>, the observable
  state is the same after both, and the mock's recorded duty cycle is 0 after each.
  With any backend, a \<^verbatim>\<open>set_power(False)\<close> that returns has returned that state.
\<close>

theorem set_power_off_idempotent:
  assumes "idle_mock c"
  shows "(\<exists>c1 c2 m1 m2.
           set_power False c = Returned \<lparr>is_on = False, brightness = Fin 0\<rparr> c1
         \<and> backend (pwm c1) = Mock m1 \<and> duty_cycle_percent m1 = Fin 0
         \<and> set_power False c1 = Returned \<lparr>is_on = False, brightness = Fin 0\<rparr> c2
         \<and> backend (pwm c2) = Mock m2 \<and> duty_cycle_percent m2 = Fin 0
         \<and> snapshot c1 = \<lparr>is_on = False, brightness = Fin 0\<rparr>
         \<and> snapshot c2 = snapshot c1)
       \<and> (\<forall>k st k'. set_power False k = Returned st k' \<longrightarrow>
             st = \<lparr>is_on = False, brightness = Fin 0\<rparr> \<and> snapshot k' = st)"
proof -
  from assms obtain m where m: "\<not> led_lock c" "backend (pwm c) = Mock m" "\<not> mock_lock m"
    by (rule idle_mockE)
  let ?off = "\<lparr>is_on = False, brightness = Fin 0\<rparr>"
  from set_power_off_mock[OF m] obtain c1 m1 where
    1: "set_power False c = Returned ?off c1" and
    b1: "backend (pwm c1) = Mock m1" "duty_cycle_percent m1 = Fin 0" "\<not> mock_lock m1"
      "\<not> led_lock c1"
    by simp
  from set_power_off_mock[OF b1(4) b1(1) b1(3)] obtain c2 m2 where
    2: "set_power False c1 = Returned ?off c2" and
    b2: "backend (pwm c2) = Mock m2" "duty_cycle_percent m2 = Fin 0"
    by simp
  have g: "st = ?off \<and> snapshot k' = st" if "set_power False k = Returned st k'" for k st k'
    using set_power_returned(1,2)[OF that] by simp
  from set_power_returned(2)[OF 1] set_power_returned(2)[OF 2] 1 2 b1 b2
  have "\<exists>c1 c2 m1 m2.
           set_power False c = Returned ?off c1
         \<and> backend (pwm c1) = Mock m1 \<and> duty_cycle_percent m1 = Fin 0
         \<and> set_power False c1 = Returned ?off c2
         \<and> backend (pwm c2) = Mock m2 \<and> duty_cycle_percent m2 = Fin 0
         \<and> snapshot c1 = ?off \<and> snapshot c2 = snapshot c1"
    by auto
  with g show ?thesis by blast
qed

theorem set_power_off_idempotent_witness:
  "idle_mock (default_led\<lparr>cur_is_on := True, cur_brightness := Fin 0.4\<rparr>)
   \<and> (\<exists>c1 c2. set_power False (default_led\<lparr>cur_is_on := True, cur_brightness := Fin 0.4\<rparr>)
                 = Returned \<lparr>is_on = False, brightness = Fin 0\<rparr> c1
             \<and> set_power False c1 = Returned \<lparr>is_on = False, brightness = Fin 0\<rparr> c2)"
proof -
  have i: "idle_mock (default_led\<lparr>cur_is_on := True, cur_brightness := Fin 0.4\<rparr>)"
    by (simp add: idle_mock_def default_led_def new_defs)
  from set_power_off_idempotent[OF i] i show ?thesis by blast
qed


subsection \<open>Closing controllers and the registry\<close>

lemma fl_eq_zero: "fl_eq v (Fin 0) \<longleftrightarrow> v = Fin 0"
  by (cases v) auto

lemma set_brightness_snapshot:
  assumes "set_brightness b c = Returned st c'"
  shows "snapshot c' = st"
  using set_brightness_returned[OF assms] by (auto simp: snapshot_def fl_eq_zero)

lemma try_finally_Returned:
  "try_finally body fin s = Returned a s' \<longleftrightarrow>
   (\<exists>t u. body s = Returned a t \<and> fin t = Returned u s')"
  by (auto simp: try_finally_def split: outcome.splits)

lemma pwm_stop_Returned_received:
  "pwm_stop p = Returned u p' \<Longrightarrow> received p' = received p @ [Stop]"
  using received_after_stop[of p] by simp

lemma received_after_close: "received (final_state (pwm_close p)) = received p @ [Close]"
  by (simp add: pwm_close_def received_after_dispatch)

lemma pwm_close_Returned_received:
  "pwm_close p = Returned u p' \<Longrightarrow> received p' = received p @ [Close]"
  using received_after_close[of p] by simp

lemma led_close_returned:
  assumes "led_close c = Returned u c'"
  shows "received (pwm c') = received (pwm c) @ [Stop, Close]"
  using assms
  by (auto simp: led_close_def Returned_iffs try_finally_Returned led_locked_def
      dest!: pwm_stop_Returned_received pwm_close_Returned_received)

lemma led_close_mock:
  assumes "\<not> led_lock c" "backend (pwm c) = Mock m" "\<not> mock_lock m"
  shows "led_close c =
           Returned ()
             (c\<lparr>pwm := (pwm c)\<lparr>received := received (pwm c) @ [Stop, Close],
                     backend := Mock (m\<lparr>started := False, duty_cycle_percent := Fin 0,
                                        mock_lock := False\<rparr>)\<rparr>,
                led_lock := False\<rparr>)"
  using assms
  by (simp add: led_close_def with_lock_def try_finally_def led_locked_def on_pwm_def
      pwm_stop_mock pwm_close_mock)

text \<open>With the hardware backend the controller's close never returns either.\<close>

lemma pwm_close_rpi_blocks:
  assumes "backend p = Rpi r" "\<not> rpi_lock r"
  shows "\<exists>p'. pwm_close p = Blocked p'"
  using assms
  by (simp add: pwm_close_def pwm_dispatch_def rpi_close_def rpi_stop_def with_lock_def
      try_finally_def rpi_locked_def)

lemma rpi_stop_keeps_lock:
  "\<not> rpi_lock r \<Longrightarrow> \<not> rpi_lock (final_state (rpi_stop r)) \<and> (\<forall>r'. rpi_stop r \<noteq> Blocked r')"
  by (simp add: rpi_stop_def with_lock_def rpi_locked_def gpio_invoke_def Let_def)

lemma led_close_rpi_blocks:
  assumes "\<not> led_lock c" "backend (pwm c) = Rpi r" "\<not> rpi_lock r"
  shows "\<exists>c'. led_close c = Blocked c'"
proof -
  from rpi_stop_keeps_lock[OF assms(3)]
  have k: "\<not> rpi_lock (final_state (rpi_stop r))" "\<And>r'. rpi_stop r \<noteq> Blocked r'" by simp_all
  show ?thesis
  proof (cases "rpi_stop r")
    case (Returned u r')
    with k have "\<not> rpi_lock r'" by simp
    with Returned assms show ?thesis
      by (simp add: led_close_def with_lock_def try_finally_def led_locked_def on_pwm_def
          pwm_stop_def pwm_close_def pwm_dispatch_def rpi_close_def rpi_locked_def rpi_stop_def)
  next
    case (Raised e r')
    with k have "\<not> rpi_lock r'" by simp
    with Raised assms show ?thesis
      by (simp add: led_close_def with_lock_def try_finally_def led_locked_def on_pwm_def
          pwm_stop_def pwm_close_def pwm_dispatch_def rpi_close_def rpi_locked_def rpi_stop_def)
  next
    case (Blocked r')
    with k(2)[of r'] show ?thesis by simp
  qed
qed

lemma on_controller_Returned:
  "on_controller f d = Returned a d' \<longleftrightarrow>
   (\<exists>c'. f (controller d) = Returned a c' \<and> d' = d\<lparr>controller := c'\<rparr>)"
  by (auto simp: on_controller_def in_state_Returned)

lemma device_close_returned:
  assumes "device_close d = Returned u d'"
  shows "device_id d' = device_id d
       \<and> received (pwm (controller d')) = received (pwm (controller d)) @ [Stop, Close]"
  using assms by (auto simp: device_close_def on_controller_Returned dest: led_close_returned)

lemma device_close_mock_returns:
  assumes "idle_mock (controller d)"
  shows "\<exists>d'. device_close d = Returned () d'"
proof -
  from assms obtain m where
    m: "\<not> led_lock (controller d)" "backend (pwm (controller d)) = Mock m" "\<not> mock_lock m"
    by (rule idle_mockE)
  show ?thesis
    by (simp add: device_close_def on_controller_def led_close_mock[OF m])
qed

lemma close_each_returned:
  "close_each ds = Returned () ds' \<Longrightarrow> list_all2 closed_from ds ds'"
proof (induction ds arbitrary: ds')
  case Nil
  then show ?case by simp
next
  case (Cons d ds)
  from Cons.prems obtain d' rest where
    d: "device_close d = Returned () d'" and r: "close_each ds = Returned () rest"
    and e: "ds' = d' # rest"
    by (auto split: outcome.splits simp: in_state_Returned)
  from device_close_returned[OF d] Cons.IH[OF r] e show ?case
    by (simp add: closed_from_def)
qed

lemma close_each_mock_returns:
  "(\<forall>d \<in> set ds. idle_mock (controller d)) \<Longrightarrow> \<exists>ds'. close_each ds = Returned () ds'"
proof (induction ds)
  case Nil
  then show ?case by simp
next
  case (Cons d ds)
  from Cons.prems device_close_mock_returns[of d] obtain d' where
    d: "device_close d = Returned () d'" by auto
  from Cons obtain rest where "close_each ds = Returned () rest" by auto
  with d show ?case by simp
qed

lemma list_devices_free:
  "\<not> reg_lock g \<Longrightarrow>
   list_devices g = Returned (map (\<lambda>(k, d). info d) (led_devices g)) (g\<lparr>reg_lock := False\<rparr>)"
  by (simp add: list_devices_def with_lock_def reg_locked_def)

text \<open>
  On a registry whose lock is free: if \<^verbatim>\<open>close()\<close> returns, \<^verbatim>\<open>list_devices()\<close> then returns
  the empty list and the drained devices are the ones the registry held, in order, the
  backend of each having received exactly \<^verbatim>\<open>stop\<close> and then \<^verbatim>\<open>close\<close>. When every
  controller is idle on a mock backend, \<^verbatim>\<open>close()\<close> does return.
\<close>

lemma registry_close_ready_devices:
  assumes "\<not> reg_lock g"
  shows "(\<forall>g' ds'. registry_close g = Returned () (g', ds') \<longrightarrow>
            list_devices g' = Returned [] g'
          \<and> list_all2 closed_from (map snd (led_devices g)) ds')
       \<and> ((\<forall>d \<in> set (map snd (led_devices g)). idle_mock (controller d)) \<longrightarrow>
            (\<exists>g' ds'. registry_close g = Returned () (g', ds')))"
proof -
  have d: "registry_close g =
             in_state (\<lambda>ds. (g\<lparr>led_devices := [], reg_lock := False\<rparr>, ds))
               (close_each (map snd (led_devices g)))"
    using assms by (simp add: registry_close_def with_lock_def reg_locked_def)
  have 1: "list_devices g' = Returned [] g' \<and> list_all2 closed_from (map snd (led_devices g)) ds'"
    if "registry_close g = Returned () (g', ds')" for g' ds'
  proof -
    from that d have c: "close_each (map snd (led_devices g)) = Returned () ds'"
      and g': "g' = g\<lparr>led_devices := [], reg_lock := False\<rparr>"
      by (auto simp: in_state_Returned)
    from g' have "list_devices g' = Returned [] g'"
      by (simp add: list_devices_def with_lock_def reg_locked_def)
    with close_each_returned[OF c] show ?thesis by simp
  qed
  have 2: "\<exists>g' ds'. registry_close g = Returned () (g', ds')"
    if "\<forall>d \<in> set (map snd (led_devices g)). idle_mock (controller d)"
    using close_each_mock_returns[OF that] d by auto
  from 1 2 show ?thesis by blast
qed

lemma registry_with_simp:
  "registry_with k =
     \<lparr>reg_lock = False, led_devices = [(k, \<lparr>device_id = k, controller = default_led\<rparr>)], lookups = []\<rparr>"
  by (simp add: registry_with_def register_led_def new_device_registry_def with_lock_def
      reg_locked_def)

lemma mixed_registry_simp:
  "mixed_registry =
     \<lparr>reg_lock = False,
      led_devices = [(''lamp'', \<lparr>device_id = ''lamp'', controller = hardware_led\<rparr>),
                     (''x'', \<lparr>device_id = ''x'', controller = default_led\<rparr>)],
      lookups = []\<rparr>"
  by (simp add: mixed_registry_def register_led_def new_device_registry_def with_lock_def
      reg_locked_def)

lemma registry_close_hardware_first:
  assumes "\<not> reg_lock g" and "led_devices g = (k, d) # rest"
    and "\<not> led_lock (controller d)" and "backend (pwm (controller d)) = Rpi r" and "\<not> rpi_lock r"
  shows "\<exists>g' d'. registry_close g = Blocked (g', d' # map snd rest)"
proof -
  from led_close_rpi_blocks[OF assms(3,4,5)] obtain c' where "led_close (controller d) = Blocked c'"
    by blast
  then have "close_each (d # map snd rest) = Blocked (d\<lparr>controller := c'\<rparr> # map snd rest)"
    by (simp add: device_close_def on_controller_def)
  with assms(1,2) show ?thesis
    by (simp add: registry_close_def with_lock_def reg_locked_def)
qed

text \<open>
  C5. The claim: after \<^verbatim>\<open>DeviceRegistry.close()\<close>, \<^verbatim>\<open>list_devices()\<close> is empty and the backend
  of every controller that was registered has received exactly one \<^verbatim>\<open>stop\<close> followed by
  one \<^verbatim>\<open>close\<close>.

  The code does not do this when a registered controller is on the hardware backend,
  whose \<^verbatim>\<open>close()\<close> never returns (C2). With \<^verbatim>\<open>lamp\<close> on the hardware backend registered
  before the mock-backed \<^verbatim>\<open>x\<close>, \<^verbatim>\<open>DeviceRegistry.close()\<close> drains the dictionary and then
  waits for ever inside the close of \<^verbatim>\<open>lamp\<close>, both of its locks held: the driver has
  received no call, so the pin is not released, and \<^verbatim>\<open>x\<close> is never closed, its backend
  having received neither \<^verbatim>\<open>stop\<close> nor \<^verbatim>\<open>close\<close>.
\<close>

theorem registry_close_stalls_on_hardware:
  "registry_close mixed_registry =
     Blocked
       (\<lparr>reg_lock = False, led_devices = [], lookups = []\<rparr>,
        [\<lparr>device_id = ''lamp'',
          controller = hardware_led
            \<lparr>pwm := \<lparr>backend = Rpi ((new_rpi_pwm_output 18 800 (\<lambda>h c. False))\<lparr>rpi_lock := True\<rparr>),
                     received = [Stop, Close]\<rparr>,
             led_lock := True\<rparr>\<rparr>,
         \<lparr>device_id = ''x'', controller = default_led\<rparr>])
   \<and> received (pwm default_led) = []
   \<and> gpio_calls (new_rpi_pwm_output 18 800 (\<lambda>h c. False)) = []"
  by (simp add: mixed_registry_simp registry_close_def with_lock_def reg_locked_def
      device_close_def on_controller_def led_close_def led_locked_def try_finally_def on_pwm_def
      pwm_stop_def pwm_close_def pwm_dispatch_def rpi_stop_def rpi_close_def rpi_locked_def
      hardware_led_def new_defs new_rpi_pwm_output_def default_led_def)

subsection \<open>Running the actions of a scenario\<close>

lemma map_of_dict_set: "map_of (dict_set k v kvs) = (map_of kvs)(k \<mapsto> v)"
  by (induction kvs) (auto simp: fun_eq_iff)

lemma keys_dict_set:
  "map_of kvs k = Some d \<Longrightarrow> map fst (dict_set k v kvs) = map fst kvs"
  by (induction kvs) (auto split: if_splits)

lemma get_led_free:
  "\<not> reg_lock g \<Longrightarrow>
   get_led k g =
     (case map_of (led_devices g) k of
        None \<Rightarrow> Raised (KeyError k) (g\<lparr>lookups := lookups g @ [k], reg_lock := False\<rparr>)
      | Some d \<Rightarrow> Returned d (g\<lparr>lookups := lookups g @ [k], reg_lock := False\<rparr>))"
  by (simp add: get_led_def with_lock_def reg_locked_def split: option.splits)

lemma get_led_Returned:
  "get_led k g = Returned d g' \<longleftrightarrow>
   (\<not> reg_lock g \<and> map_of (led_devices g) k = Some d
    \<and> g' = g\<lparr>lookups := lookups g @ [k], reg_lock := False\<rparr>)"
  by (cases "reg_lock g")
     (auto simp: get_led_free split: option.splits, simp add: get_led_def with_lock_def)

lemma on_device_Returned:
  "on_device k f g = Returned v g' \<longleftrightarrow>
   (\<not> reg_lock g \<and>
    (\<exists>d d'. map_of (led_devices g) k = Some d \<and> f d = Returned v d'
           \<and> g' = g\<lparr>lookups := lookups g @ [k], reg_lock := False,
                     led_devices := dict_set k d' (led_devices g)\<rparr>))"
  by (auto simp: on_device_def and_then_Returned get_led_Returned in_state_Returned)

lemma on_device_missing:
  "\<not> reg_lock g \<Longrightarrow> map_of (led_devices g) k = None \<Longrightarrow>
   on_device k f g = Raised (KeyError k) (g\<lparr>lookups := lookups g @ [k], reg_lock := False\<rparr>)"
  by (simp add: on_device_def get_led_free)

lemma device_set_power_returned:
  "device_set_power on d = Returned st d' \<Longrightarrow>
   snapshot (controller d') = st \<and> device_id d' = device_id d"
  by (auto simp: device_set_power_def on_controller_Returned dest: set_power_returned(2))

lemma device_set_brightness_returned:
  "device_set_brightness b d = Returned st d' \<Longrightarrow>
   snapshot (controller d') = st \<and> device_id d' = device_id d"
  by (auto simp: device_set_brightness_def on_controller_Returned dest: set_brightness_snapshot)

lemma perform_action_skip:
  "\<not> dispatched a \<Longrightarrow> perform_action a ex g = Returned ex g"
  by (auto simp: perform_action_def dispatched_def)

lemma perform_action_returned:
  assumes "perform_action a ex g = Returned ex' g'" and "dispatched a"
  shows "\<not> reg_lock g \<and> \<not> reg_lock g' \<and> map fst (led_devices g') = map fst (led_devices g)
       \<and> (\<exists>d. map_of (led_devices g') (action_device_id a) = Some d
              \<and> ex' = ex @ [entry_for a (snapshot (controller d))])"
  using assms
  by (auto simp: perform_action_def dispatched_def and_then_Returned on_device_Returned Let_def
      map_of_dict_set keys_dict_set entry_for_def
      dest!: device_set_power_returned device_set_brightness_returned split: if_splits)

lemma perform_action_keeps_registry:
  assumes "perform_action a ex g = Returned ex' g'"
  shows "reg_lock g' = reg_lock g \<and> map fst (led_devices g') = map fst (led_devices g)
       \<and> (\<exists>new. ex' = ex @ new)"
proof (cases "dispatched a")
  case True
  from perform_action_returned[OF assms True] show ?thesis by auto
next
  case False
  with assms show ?thesis by (simp add: perform_action_skip)
qed

lemma run_actions_append:
  "run_actions (xs @ ys) ex g = and_then (run_actions xs ex g) (run_actions ys)"
proof (induction xs arbitrary: ex g)
  case Nil
  then show ?case by simp
next
  case (Cons a xs)
  then show ?case by (cases "perform_action a ex g") simp_all
qed

lemma run_actions_filter:
  "run_actions (filter dispatched as) ex g = run_actions as ex g"
proof (induction as arbitrary: ex g)
  case Nil
  then show ?case by simp
next
  case (Cons a as)
  from Cons.IH have "run_actions (filter dispatched as) = run_actions as"
    by (simp add: fun_eq_iff)
  then show ?case by (cases "dispatched a") (simp_all add: perform_action_skip)
qed

lemma run_actions_keeps_registry:
  "run_actions as ex g = Returned ex' g' \<Longrightarrow>
   reg_lock g' = reg_lock g \<and> map fst (led_devices g') = map fst (led_devices g)
   \<and> (\<exists>new. ex' = ex @ new)"
proof (induction as arbitrary: ex g)
  case Nil
  then show ?case by simp
next
  case (Cons a as)
  from Cons.prems obtain ex1 g1 where
    p: "perform_action a ex g = Returned ex1 g1" and r: "run_actions as ex1 g1 = Returned ex' g'"
    by (auto simp: and_then_Returned)
  from perform_action_keeps_registry[OF p] Cons.IH[OF r] show ?case by auto
qed

lemma run_actions_entries:
  "run_actions as ex g = Returned ex' g' \<Longrightarrow>
   map (\<lambda>r. (ex_type r, ex_device_id r)) ex' =
     map (\<lambda>r. (ex_type r, ex_device_id r)) ex
     @ map (\<lambda>a. (action_type a, action_device_id a)) (filter dispatched as)"
proof (induction as arbitrary: ex g)
  case Nil
  then show ?case by simp
next
  case (Cons a as)
  from Cons.prems obtain ex1 g1 where
    p: "perform_action a ex g = Returned ex1 g1" and r: "run_actions as ex1 g1 = Returned ex' g'"
    by (auto simp: and_then_Returned)
  show ?case
  proof (cases "dispatched a")
    case True
    from perform_action_returned[OF p True] Cons.IH[OF r] True show ?thesis
      by (auto simp: entry_for_def)
  next
    case False
    with p Cons.IH[OF r] show ?thesis by (simp add: perform_action_skip)
  qed
qed

lemma run_actions_upto:
  assumes "run_actions (pre @ a # post) ex g = Returned ex' g'" and "dispatched a"
  shows "\<exists>ex1 g1 d rest. run_actions (pre @ [a]) ex g = Returned ex1 g1 \<and> ex' = ex1 @ rest
          \<and> map_of (led_devices g1) (action_device_id a) = Some d
          \<and> ex1 \<noteq> [] \<and> last ex1 = entry_for a (snapshot (controller d))"
proof -
  from assms(1) obtain ex0 g0 where
    0: "run_actions pre ex g = Returned ex0 g0" and
    1: "run_actions (a # post) ex0 g0 = Returned ex' g'"
    by (auto simp: run_actions_append and_then_Returned)
  from 1 obtain ex1 g1 where
    p: "perform_action a ex0 g0 = Returned ex1 g1" and r: "run_actions post ex1 g1 = Returned ex' g'"
    by (auto simp: and_then_Returned)
  from 0 p have a: "run_actions (pre @ [a]) ex g = Returned ex1 g1"
    by (simp add: run_actions_append and_then_Returned)
  from perform_action_returned[OF p assms(2)] obtain d where
    d: "map_of (led_devices g1) (action_device_id a) = Some d"
       "ex1 = ex0 @ [entry_for a (snapshot (controller d))]" by auto
  from run_actions_keeps_registry[OF r] obtain rest where "ex' = ex1 @ rest" by auto
  with a d show ?thesis by auto
qed

lemma scenario_get_free:
  "\<not> scn_lock g \<Longrightarrow>
   scenario_get k g =
     (case map_of (scenarios g) k of
        None \<Rightarrow> Raised (KeyError k) (g\<lparr>scn_lock := False\<rparr>)
      | Some s \<Rightarrow> Returned s (g\<lparr>scn_lock := False\<rparr>))"
  by (simp add: scenario_get_def with_lock_def scn_locked_def split: option.splits)

lemma scenario_get_Returned:
  "scenario_get k g = Returned s g' \<longleftrightarrow>
   (\<not> scn_lock g \<and> map_of (scenarios g) k = Some s \<and> g' = g\<lparr>scn_lock := False\<rparr>)"
  by (cases "scn_lock g")
     (auto simp: scenario_get_free split: option.splits, simp add: scenario_get_def with_lock_def)

lemma unlock_free_scn: "\<not> scn_lock g \<Longrightarrow> g\<lparr>scn_lock := False\<rparr> = g"
  by (cases g) simp

lemma unlock_free_reg: "\<not> reg_lock g \<Longrightarrow> g\<lparr>reg_lock := False\<rparr> = g"
  by (cases g) simp

lemma trigger_scenario_returned:
  assumes "trigger_scenario sid app = Returned res app'"
  shows "\<exists>s. map_of (scenarios (app_scenarios app)) sid = Some s
           \<and> res_scenario_id res = scenario_id s
           \<and> run_actions (actions s) [] (app_registry app)
               = Returned (res_executed res) (app_registry app')"
  using assms
  by (auto simp: trigger_scenario_def scenario_get_Returned split: outcome.splits exn.splits)

lemma strip_plain [simp]:
  "strip ''set_power'' = ''set_power''" "strip ''set_brightness'' = ''set_brightness''"
  "strip ''noop'' = ''noop''" "strip ''x'' = ''x''" "strip '''' = ''''" "strip ''ghost'' = ''ghost''"
  by (simp_all add: strip_def is_space_def)

lemma app_with_simp:
  "app_with k s = \<lparr>app_scenarios = \<lparr>scn_lock = False, scenarios = [(scenario_id s, s)]\<rparr>,
                   app_registry = registry_with k\<rparr>"
  by (simp add: app_with_def upsert_def new_scenario_registry_def with_lock_def scn_locked_def)

lemma default_led_parts:
  "\<not> led_lock default_led" "backend (pwm default_led) = Mock (new_mock_pwm_output 800)"
  "\<not> mock_lock (new_mock_pwm_output 800)" "cur_brightness default_led = Fin 0"
  "received (pwm default_led) = []"
  by (simp_all add: default_led_def new_defs)

lemma skipping_example_runs:
  "\<exists>app'. trigger_scenario ''s'' (app_with ''x'' skipping_example) =
     Returned \<lparr>res_scenario_id = ''s'',
               res_executed = [\<lparr>ex_type = ''set_power'', ex_device_id = ''x'',
                                ex_state = \<lparr>is_on = True, brightness = Fin 1\<rparr>\<rparr>]\<rparr> app'"
  by (simp add: app_with_simp skipping_example_def trigger_scenario_def scenario_get_free
      registry_with_simp mk_action_def perform_action_def action_type_def action_device_id_def
      on_device_def get_led_free device_set_power_def on_controller_def
      set_power_on_mock[OF default_led_parts(1,2,3) refl] default_led_parts fl_le_def)

text \<open>On a ready registry every step returns and leaves the registry ready.\<close>

lemma set_dict_set: "set (dict_set k v kvs) \<subseteq> insert (k, v) (set kvs)"
  by (induction kvs) (auto split: if_splits)

lemma device_set_power_mock_returns:
  assumes "idle_mock (controller d)"
  shows "\<exists>st d'. device_set_power on d = Returned st d' \<and> idle_mock (controller d')"
  using set_power_mock_returns[OF assms, of on]
  by (auto simp: device_set_power_def on_controller_def)

lemma device_set_brightness_mock_returns:
  assumes "idle_mock (controller d)"
  shows "\<exists>st d'. device_set_brightness b d = Returned st d' \<and> idle_mock (controller d')"
  using set_brightness_mock_returns[OF assms, of b]
  by (auto simp: device_set_brightness_def on_controller_def)

lemma on_device_returns:
  assumes "ready g" and "k \<in> set (map fst (led_devices g))"
    and f: "\<And>d. idle_mock (controller d) \<Longrightarrow> \<exists>st d'. f d = Returned st d' \<and> idle_mock (controller d')"
  shows "\<exists>st g'. on_device k f g = Returned st g' \<and> ready g'
           \<and> map fst (led_devices g') = map fst (led_devices g)"
proof -
  from assms(2) obtain d where d: "map_of (led_devices g) k = Some d"
    by (cases "map_of (led_devices g) k") (auto simp: map_of_eq_None_iff)
  then have "(k, d) \<in> set (led_devices g)" by (rule map_of_SomeD)
  with assms(1) have "idle_mock (controller d)"
    by (auto simp: ready_def list_all_iff)
  from f[OF this] obtain st d' where r: "f d = Returned st d'" and i: "idle_mock (controller d')"
    by blast
  let ?g' = "g\<lparr>lookups := lookups g @ [k], reg_lock := False,
                led_devices := dict_set k d' (led_devices g)\<rparr>"
  from assms(1) d r have o: "on_device k f g = Returned st ?g'"
    by (simp add: on_device_Returned ready_def)
  have "list_all (\<lambda>d. idle_mock (controller d)) (map snd (dict_set k d' (led_devices g)))"
    using set_dict_set[of k d' "led_devices g"] assms(1) i
    by (auto simp: ready_def list_all_iff)
  then have "ready ?g'" by (simp add: ready_def)
  with o keys_dict_set[OF d] show ?thesis by auto
qed

lemma perform_action_returns:
  assumes "ready g"
    and "dispatched a \<longrightarrow> action_device_id a \<in> set (map fst (led_devices g))"
  shows "\<exists>ex' g'. perform_action a ex g = Returned ex' g' \<and> ready g'
           \<and> map fst (led_devices g') = map fst (led_devices g)"
proof (cases "dispatched a")
  case False
  with assms(1) show ?thesis by (simp add: perform_action_skip)
next
  case True
  with assms(2) have k: "action_device_id a \<in> set (map fst (led_devices g))" by simp
  from True have n: "action_device_id a \<noteq> []" by (simp add: dispatched_def)
  show ?thesis
  proof (cases "action_type a = ''set_power''")
    case True
    from on_device_returns[OF assms(1) k,
        of "device_set_power (case act_is_on a of None \<Rightarrow> False | Some b \<Rightarrow> b)"]
      device_set_power_mock_returns
    obtain st g' where "on_device (action_device_id a)
        (device_set_power (case act_is_on a of None \<Rightarrow> False | Some b \<Rightarrow> b)) g = Returned st g'"
      "ready g'" "map fst (led_devices g') = map fst (led_devices g)" by blast
    with True n show ?thesis by (simp add: perform_action_def)
  next
    case False
    with \<open>dispatched a\<close> have t: "action_type a = ''set_brightness''" by (simp add: dispatched_def)
    from on_device_returns[OF assms(1) k,
        of "device_set_brightness (case act_brightness a of None \<Rightarrow> Fin 0 | Some x \<Rightarrow> x)"]
      device_set_brightness_mock_returns
    obtain st g' where "on_device (action_device_id a)
        (device_set_brightness (case act_brightness a of None \<Rightarrow> Fin 0 | Some x \<Rightarrow> x)) g = Returned st g'"
      "ready g'" "map fst (led_devices g') = map fst (led_devices g)" by blast
    with t n show ?thesis by (simp add: perform_action_def)
  qed
qed

lemma run_actions_returns:
  assumes "ready g"
    and "\<forall>a \<in> set as. dispatched a \<longrightarrow> action_device_id a \<in> set (map fst (led_devices g))"
  shows "\<exists>ex' g'. run_actions as ex g = Returned ex' g'"
  using assms
proof (induction as arbitrary: ex g)
  case Nil
  then show ?case by simp
next
  case (Cons a as)
  from Cons.prems(2) have "dispatched a \<longrightarrow> action_device_id a \<in> set (map fst (led_devices g))"
    by simp
  from perform_action_returns[OF Cons.prems(1) this, of ex] obtain ex1 g1 where
    p: "perform_action a ex g = Returned ex1 g1" and r: "ready g1"
    and k: "map fst (led_devices g1) = map fst (led_devices g)" by blast
  from Cons.prems(2) k
  have "\<forall>a \<in> set as. dispatched a \<longrightarrow> action_device_id a \<in> set (map fst (led_devices g1))"
    by simp
  from Cons.IH[OF r this, of ex1] p show ?case by simp
qed

lemma trigger_scenario_returns:
  assumes "\<not> scn_lock (app_scenarios app)"
    and "map_of (scenarios (app_scenarios app)) sid = Some s"
    and "ready (app_registry app)"
    and "\<forall>a \<in> set (actions s). dispatched a \<longrightarrow>
           action_device_id a \<in> set (map fst (led_devices (app_registry app)))"
  shows "\<exists>res app'. trigger_scenario sid app = Returned res app'"
proof -
  from run_actions_returns[OF assms(3,4), of "[]"] obtain ex g where
    "run_actions (actions s) [] (app_registry app) = Returned ex g" by blast
  with assms(1,2) show ?thesis
    by (simp add: trigger_scenario_def scenario_get_free)
qed

text \<open>
  C3. An action that is not dispatched (empty \<^verbatim>\<open>device_id\<close> after trimming, or unknown
  \<^verbatim>\<open>type\<close>) changes nothing, raises nothing and adds no entry, and whatever its outcome
  a run of actions is the run of its dispatched actions alone. When the locks are free,
  the scenario is stored, every controller is idle on a mock backend and every
  dispatched action names a registered device, the trigger returns, with the scenario's
  identifier and with the \<^verbatim>\<open>type\<close> and \<^verbatim>\<open>device_id\<close> of the dispatched actions as its
  entries, in the stored order. Whenever a trigger returns, on any backend, its entries
  are those, and the entry of each dispatched action is the last one after running the
  actions up to it, a prefix of the final result, with the state its device has at that
  moment. The scenario
  \<^verbatim>\<open>[{type: noop, device_id: ""}, {type: set_power, device_id: x, is_on: true}]\<close>,
  triggered with \<^verbatim>\<open>x\<close> registered, returns an executed list of length 1.
\<close>

theorem trigger_runs_dispatched_in_order:
  "(\<forall>a ex g. \<not> dispatched a \<longrightarrow> perform_action a ex g = Returned ex g)
   \<and> (\<forall>as ex g. run_actions as ex g = run_actions (filter dispatched as) ex g)
   \<and> (\<forall>sid app s.
          \<not> scn_lock (app_scenarios app)
        \<and> map_of (scenarios (app_scenarios app)) sid = Some s
        \<and> ready (app_registry app)
        \<and> (\<forall>a \<in> set (actions s). dispatched a \<longrightarrow>
              action_device_id a \<in> set (map fst (led_devices (app_registry app)))) \<longrightarrow>
        (\<exists>res app'. trigger_scenario sid app = Returned res app'
           \<and> res_scenario_id res = scenario_id s
           \<and> map (\<lambda>r. (ex_type r, ex_device_id r)) (res_executed res)
               = map (\<lambda>a. (action_type a, action_device_id a)) (filter dispatched (actions s))))
   \<and> (\<forall>sid app res app'. trigger_scenario sid app = Returned res app' \<longrightarrow>
        (\<exists>s. map_of (scenarios (app_scenarios app)) sid = Some s
           \<and> run_actions (filter dispatched (actions s)) [] (app_registry app)
               = Returned (res_executed res) (app_registry app')
           \<and> map (\<lambda>r. (ex_type r, ex_device_id r)) (res_executed res)
               = map (\<lambda>a. (action_type a, action_device_id a)) (filter dispatched (actions s))
           \<and> (\<forall>pre a post. actions s = pre @ a # post \<and> dispatched a \<longrightarrow>
                (\<exists>ex1 g1 d rest.
                    run_actions (pre @ [a]) [] (app_registry app) = Returned ex1 g1
                  \<and> res_executed res = ex1 @ rest \<and> ex1 \<noteq> []
                  \<and> map_of (led_devices g1) (action_device_id a) = Some d
                  \<and> last ex1 = entry_for a (snapshot (controller d))))))
   \<and> (\<exists>res app'. trigger_scenario ''s'' (app_with ''x'' skipping_example) = Returned res app'
                 \<and> length (res_executed res) = 1)"
proof -
  have 1: "\<forall>a ex g. \<not> dispatched a \<longrightarrow> perform_action a ex g = Returned ex g"
    by (simp add: perform_action_skip)
  have 0: "\<forall>as ex g. run_actions as ex g = run_actions (filter dispatched as) ex g"
    by (simp add: run_actions_filter)
  have 2: "\<exists>s. map_of (scenarios (app_scenarios app)) sid = Some s
           \<and> run_actions (filter dispatched (actions s)) [] (app_registry app)
               = Returned (res_executed res) (app_registry app')
           \<and> map (\<lambda>r. (ex_type r, ex_device_id r)) (res_executed res)
               = map (\<lambda>a. (action_type a, action_device_id a)) (filter dispatched (actions s))
           \<and> (\<forall>pre a post. actions s = pre @ a # post \<and> dispatched a \<longrightarrow>
                (\<exists>ex1 g1 d rest.
                    run_actions (pre @ [a]) [] (app_registry app) = Returned ex1 g1
                  \<and> res_executed res = ex1 @ rest \<and> ex1 \<noteq> []
                  \<and> map_of (led_devices g1) (action_device_id a) = Some d
                  \<and> last ex1 = entry_for a (snapshot (controller d))))"
    if t: "trigger_scenario sid app = Returned res app'" for sid app res app'
  proof -
    from trigger_scenario_returned[OF t] obtain s where
      s: "map_of (scenarios (app_scenarios app)) sid = Some s" and
      r: "run_actions (actions s) [] (app_registry app) = Returned (res_executed res) (app_registry app')"
      by blast
    have u: "\<exists>ex1 g1 d rest.
                    run_actions (pre @ [a]) [] (app_registry app) = Returned ex1 g1
                  \<and> res_executed res = ex1 @ rest \<and> ex1 \<noteq> []
                  \<and> map_of (led_devices g1) (action_device_id a) = Some d
                  \<and> last ex1 = entry_for a (snapshot (controller d))"
      if "actions s = pre @ a # post" "dispatched a" for pre a post
      using run_actions_upto[of pre a post "[]" "app_registry app"] r that by auto
    from s r run_actions_entries[OF r] u show ?thesis
      by (auto simp: run_actions_filter)
  qed
  have 4: "\<exists>res app'. trigger_scenario sid app = Returned res app'
           \<and> res_scenario_id res = scenario_id s
           \<and> map (\<lambda>r. (ex_type r, ex_device_id r)) (res_executed res)
               = map (\<lambda>a. (action_type a, action_device_id a)) (filter dispatched (actions s))"
    if h: "\<not> scn_lock (app_scenarios app)" "map_of (scenarios (app_scenarios app)) sid = Some s"
      "ready (app_registry app)"
      "\<forall>a \<in> set (actions s). dispatched a \<longrightarrow>
              action_device_id a \<in> set (map fst (led_devices (app_registry app)))"
    for sid app s
  proof -
    from trigger_scenario_returns[OF h] obtain res app' where
      t: "trigger_scenario sid app = Returned res app'" by blast
    from trigger_scenario_returned[OF t] h(2) have
      "res_scenario_id res = scenario_id s"
      "run_actions (actions s) [] (app_registry app) = Returned (res_executed res) (app_registry app')"
      by auto
    with t run_actions_entries[of "actions s" "[]" "app_registry app"] show ?thesis by auto
  qed
  from skipping_example_runs
  have 3: "\<exists>res app'. trigger_scenario ''s'' (app_with ''x'' skipping_example) = Returned res app'
                 \<and> length (res_executed res) = 1"
    by auto
  from 1 0 2 3 4 show ?thesis by blast
qed

lemma skipping_example_dispatched:
  "filter dispatched (actions skipping_example) = [mk_action ''set_power'' ''x'' (Some True) None]"
  by (simp add: skipping_example_def dispatched_def mk_action_def action_type_def
      action_device_id_def)

lemma registry_with_ready: "ready (registry_with k)"
  by (simp add: ready_def registry_with_simp default_led_idle)

theorem trigger_runs_dispatched_in_order_witness:
  "\<not> dispatched (mk_action ''noop'' '''' None None)
   \<and> dispatched (mk_action ''set_power'' ''x'' (Some True) None)
   \<and> \<not> scn_lock (app_scenarios (app_with ''x'' skipping_example))
   \<and> map_of (scenarios (app_scenarios (app_with ''x'' skipping_example))) ''s'' = Some skipping_example
   \<and> ready (app_registry (app_with ''x'' skipping_example))
   \<and> map fst (led_devices (app_registry (app_with ''x'' skipping_example))) = [''x'']
   \<and> (\<exists>res app'. trigger_scenario ''s'' (app_with ''x'' skipping_example) = Returned res app'
         \<and> res_scenario_id res = ''s''
         \<and> map (\<lambda>r. (ex_type r, ex_device_id r)) (res_executed res) = [(''set_power'', ''x'')]
         \<and> map ex_state (res_executed res) = [\<lparr>is_on = True, brightness = Fin 1\<rparr>])"
proof -
  let ?app = "app_with ''x'' skipping_example"
  have d: "\<not> dispatched (mk_action ''noop'' '''' None None)"
    "dispatched (mk_action ''set_power'' ''x'' (Some True) None)"
    by (simp_all add: dispatched_def mk_action_def action_type_def action_device_id_def)
  have l: "\<not> scn_lock (app_scenarios ?app)" by (simp add: app_with_simp)
  have m: "map_of (scenarios (app_scenarios ?app)) ''s'' = Some skipping_example"
    by (simp add: app_with_simp skipping_example_def)
  have r: "ready (app_registry ?app)" by (simp add: app_with_simp registry_with_ready)
  have k: "map fst (led_devices (app_registry ?app)) = [''x'']"
    by (simp add: app_with_simp registry_with_simp)
  have a: "\<forall>a \<in> set (actions skipping_example). dispatched a \<longrightarrow>
              action_device_id a \<in> set (map fst (led_devices (app_registry ?app)))"
  proof -
    have acts: "actions skipping_example =
        [mk_action ''noop'' '''' None None, mk_action ''set_power'' ''x'' (Some True) None]"
      by (simp add: skipping_example_def)
    have ad: "action_device_id (mk_action ''set_power'' ''x'' (Some True) None) = ''x''"
      by (simp add: mk_action_def action_device_id_def)
    show ?thesis unfolding acts k using d(1) ad by simp
  qed
  from trigger_runs_dispatched_in_order l m r a
  obtain res app' where
    t: "trigger_scenario ''s'' ?app = Returned res app'"
    and i: "res_scenario_id res = scenario_id skipping_example"
    and e: "map (\<lambda>r. (ex_type r, ex_device_id r)) (res_executed res)
        = map (\<lambda>a. (action_type a, action_device_id a)) (filter dispatched (actions skipping_example))"
    by blast
  from e have e': "map (\<lambda>r. (ex_type r, ex_device_id r)) (res_executed res) = [(''set_power'', ''x'')]"
    by (simp add: skipping_example_dispatched mk_action_def action_type_def action_device_id_def)
  from i have i': "res_scenario_id res = ''s''" by (simp add: skipping_example_def)
  from skipping_example_runs t
  have s: "map ex_state (res_executed res) = [\<lparr>is_on = True, brightness = Fin 1\<rparr>]"
    by auto
  from d l m r k t i' e' s show ?thesis
    by (intro conjI exI[of _ res] exI[of _ app']) assumption+
qed

lemma perform_action_missing_device:
  assumes "dispatched a" "\<not> reg_lock g" "map_of (led_devices g) (action_device_id a) = None"
  shows "perform_action a ex g =
           Raised (KeyError (action_device_id a)) (g\<lparr>lookups := lookups g @ [action_device_id a]\<rparr>)"
  using assms
  by (auto simp: perform_action_def dispatched_def on_device_missing unlock_free_reg)

lemma same_keys_same_absence:
  assumes "map fst kvs' = map fst kvs"
  shows "map_of kvs' k = None \<longleftrightarrow> map_of kvs k = None"
proof -
  have "map_of kvs' k = None \<longleftrightarrow> k \<notin> set (map fst kvs')" by (simp add: map_of_eq_None_iff)
  also have "\<dots> \<longleftrightarrow> k \<notin> set (map fst kvs)" by (simp only: assms)
  also have "\<dots> \<longleftrightarrow> map_of kvs k = None" by (simp add: map_of_eq_None_iff)
  finally show ?thesis .
qed

text \<open>
  C4. With the locks free: triggering a scenario identifier that is not stored raises
  the HTTP error 404 and leaves the application as it was, so no action has run. If the
  stored actions are \<open>pre @ a # post\<close>, the actions \<open>pre\<close> have returned leaving the
  registry \<open>g1\<close>, and \<open>a\<close> is dispatched to a device that is not registered, the trigger
  raises \<^verbatim>\<open>KeyError\<close> for that device: the registry is left as \<open>pre\<close> made it (nothing is
  rolled back) apart from the recorded lookup, and \<open>post\<close> plays no part.
\<close>

theorem unknown_scenario_and_missing_device:
  "(\<not> scn_lock (app_scenarios app) \<and> map_of (scenarios (app_scenarios app)) sid = None \<longrightarrow>
      trigger_scenario sid app = Raised (HTTPException 404 ''Not found'') app)
   \<and> (\<not> scn_lock (app_scenarios app) \<and> \<not> reg_lock (app_registry app)
      \<and> map_of (scenarios (app_scenarios app)) sid = Some s
      \<and> actions s = pre @ a # post \<and> dispatched a
      \<and> map_of (led_devices (app_registry app)) (action_device_id a) = None
      \<and> run_actions pre [] (app_registry app) = Returned ex1 g1 \<longrightarrow>
      trigger_scenario sid app =
        Raised (KeyError (action_device_id a))
          (app\<lparr>app_registry := g1\<lparr>lookups := lookups g1 @ [action_device_id a]\<rparr>\<rparr>))"
proof -
  have 1: "trigger_scenario sid app = Raised (HTTPException 404 ''Not found'') app"
    if "\<not> scn_lock (app_scenarios app)" "map_of (scenarios (app_scenarios app)) sid = None"
    using that by (simp add: trigger_scenario_def scenario_get_free unlock_free_scn)
  have 2: "trigger_scenario sid app =
        Raised (KeyError (action_device_id a))
          (app\<lparr>app_registry := g1\<lparr>lookups := lookups g1 @ [action_device_id a]\<rparr>\<rparr>)"
    if l: "\<not> scn_lock (app_scenarios app)" "\<not> reg_lock (app_registry app)"
      and s: "map_of (scenarios (app_scenarios app)) sid = Some s"
      and a: "actions s = pre @ a # post" "dispatched a"
      and m: "map_of (led_devices (app_registry app)) (action_device_id a) = None"
      and r: "run_actions pre [] (app_registry app) = Returned ex1 g1"
  proof -
    from run_actions_keeps_registry[OF r] l(2)
    have k: "\<not> reg_lock g1" "map fst (led_devices g1) = map fst (led_devices (app_registry app))"
      by simp_all
    from same_keys_same_absence[OF k(2)] m
    have "map_of (led_devices g1) (action_device_id a) = None" by simp
    from perform_action_missing_device[OF a(2) k(1) this]
    have "run_actions (pre @ a # post) [] (app_registry app) =
            Raised (KeyError (action_device_id a)) (g1\<lparr>lookups := lookups g1 @ [action_device_id a]\<rparr>)"
      by (simp add: run_actions_append r)
    with l s a show ?thesis
      by (simp add: trigger_scenario_def scenario_get_free unlock_free_scn)
  qed
  from 1 2 show ?thesis by blast
qed

lemma run_power_on_x:
  "run_actions [mk_action ''set_power'' ''x'' (Some True) None] [] (registry_with ''x'') =
     Returned [\<lparr>ex_type = ''set_power'', ex_device_id = ''x'',
                ex_state = \<lparr>is_on = True, brightness = Fin 1\<rparr>\<rparr>]
       \<lparr>reg_lock = False, led_devices = [(''x'', lit_x)], lookups = [''x'']\<rparr>"
  by (simp add: registry_with_simp mk_action_def perform_action_def action_type_def
      action_device_id_def on_device_def get_led_free device_set_power_def on_controller_def
      set_power_on_mock[OF default_led_parts(1,2,3) refl] default_led_parts fl_le_def lit_x_def)

theorem unknown_scenario_and_missing_device_witness:
  "map_of (scenarios (app_scenarios (app_with ''x'' abort_example))) ''missing'' = None
   \<and> trigger_scenario ''missing'' (app_with ''x'' abort_example)
       = Raised (HTTPException 404 ''Not found'') (app_with ''x'' abort_example)
   \<and> map_of (led_devices (registry_with ''x'')) ''ghost'' = None
   \<and> (\<exists>app'. trigger_scenario ''s'' (app_with ''x'' abort_example) = Raised (KeyError ''ghost'') app'
           \<and> map (\<lambda>(k, d). (k, snapshot (controller d))) (led_devices (app_registry app'))
               = [(''x'', \<lparr>is_on = True, brightness = Fin 1\<rparr>)])"
proof -
  let ?app = "app_with ''x'' abort_example"
  let ?a = "mk_action ''set_power'' ''ghost'' (Some True) None"
  have l: "\<not> scn_lock (app_scenarios ?app)" "\<not> reg_lock (app_registry ?app)"
    by (simp_all add: app_with_simp registry_with_simp)
  have n: "map_of (scenarios (app_scenarios ?app)) ''missing'' = None"
    by (simp add: app_with_simp abort_example_def)
  have s: "map_of (scenarios (app_scenarios ?app)) ''s'' = Some abort_example"
    by (simp add: app_with_simp abort_example_def)
  have a: "actions abort_example =
             [mk_action ''set_power'' ''x'' (Some True) None] @ ?a # [mk_action ''set_power'' ''x'' (Some False) None]"
    by (simp add: abort_example_def)
  have d: "dispatched ?a" "action_device_id ?a = ''ghost''"
    by (simp_all add: dispatched_def mk_action_def action_type_def action_device_id_def)
  have g: "map_of (led_devices (registry_with ''x'')) ''ghost'' = None"
    by (simp add: registry_with_simp)
  have r: "app_registry ?app = registry_with ''x''" by (simp add: app_with_simp)
  from unknown_scenario_and_missing_device[of ?app "''missing''"] l n
  have 1: "trigger_scenario ''missing'' ?app = Raised (HTTPException 404 ''Not found'') ?app"
    by blast
  from unknown_scenario_and_missing_device[where app = ?app and sid = "''s''"
      and s = abort_example and a = ?a
      and pre = "[mk_action ''set_power'' ''x'' (Some True) None]"
      and post = "[mk_action ''set_power'' ''x'' (Some False) None]"
      and ?ex1.0 = "[\<lparr>ex_type = ''set_power'', ex_device_id = ''x'',
                ex_state = \<lparr>is_on = True, brightness = Fin 1\<rparr>\<rparr>]"
      and ?g1.0 = "\<lparr>reg_lock = False, led_devices = [(''x'', lit_x)], lookups = [''x'']\<rparr>"]
    l s a d g run_power_on_x
  have "\<exists>app'. trigger_scenario ''s'' ?app = Raised (KeyError ''ghost'') app'
           \<and> map (\<lambda>(k, d). (k, snapshot (controller d))) (led_devices (app_registry app'))
               = [(''x'', \<lparr>is_on = True, brightness = Fin 1\<rparr>)]"
    by (simp add: r snapshot_def lit_x_def)
  with n 1 g show ?thesis by blast
qed

lemma set_power_off_state:
  "device_set_power False d = Returned st d' \<Longrightarrow> st = \<lparr>is_on = False, brightness = Fin 0\<rparr>"
  by (auto simp: device_set_power_def on_controller_Returned dest: set_power_returned(1))

lemma set_brightness_zero_state:
  "device_set_brightness (Fin 0) d = Returned st d' \<Longrightarrow> st = \<lparr>is_on = False, brightness = Fin 0\<rparr>"
  by (auto simp: device_set_brightness_def on_controller_Returned clamp_def fl_gt_def
      dest: set_brightness_returned(1))

text \<open>
  C9. For an action with a non-empty \<^verbatim>\<open>device_id\<close>: a \<^verbatim>\<open>set_brightness\<close> action without
  a \<^verbatim>\<open>brightness\<close> behaves exactly as the same action with brightness 0.0, that is, it
  calls \<^verbatim>\<open>set_brightness(0.0)\<close> on the device; a \<^verbatim>\<open>set_power\<close> action without \<^verbatim>\<open>is_on\<close>
  behaves exactly as the same action with \<^verbatim>\<open>is_on = False\<close>. In both cases, if the step
  returns, it has added one entry, whose state is off, and the device is off: the action
  is neither skipped nor rejected.
\<close>

theorem missing_values_default_to_off:
  assumes "action_device_id a \<noteq> []"
  shows "(action_type a = ''set_brightness'' \<and> act_brightness a = None \<longrightarrow>
            perform_action a ex g = perform_action (a\<lparr>act_brightness := Some (Fin 0)\<rparr>) ex g
          \<and> perform_action a ex g =
              and_then (on_device (action_device_id a) (device_set_brightness (Fin 0)) g)
                (\<lambda>st g'. Returned (ex @ [entry_for a st]) g')
          \<and> (\<forall>ex' g'. perform_action a ex g = Returned ex' g' \<longrightarrow>
                ex' = ex @ [entry_for a \<lparr>is_on = False, brightness = Fin 0\<rparr>]
              \<and> (\<exists>d. map_of (led_devices g') (action_device_id a) = Some d
                     \<and> snapshot (controller d) = \<lparr>is_on = False, brightness = Fin 0\<rparr>)))
       \<and> (action_type a = ''set_power'' \<and> act_is_on a = None \<longrightarrow>
            perform_action a ex g = perform_action (a\<lparr>act_is_on := Some False\<rparr>) ex g
          \<and> perform_action a ex g =
              and_then (on_device (action_device_id a) (device_set_power False) g)
                (\<lambda>st g'. Returned (ex @ [entry_for a st]) g')
          \<and> (\<forall>ex' g'. perform_action a ex g = Returned ex' g' \<longrightarrow>
                ex' = ex @ [entry_for a \<lparr>is_on = False, brightness = Fin 0\<rparr>]
              \<and> (\<exists>d. map_of (led_devices g') (action_device_id a) = Some d
                     \<and> snapshot (controller d) = \<lparr>is_on = False, brightness = Fin 0\<rparr>)))"
proof -
  note assms
  have b: ?thesis if t: "action_type a = ''set_brightness''" and n: "act_brightness a = None"
  proof -
    have 1: "perform_action a ex g = perform_action (a\<lparr>act_brightness := Some (Fin 0)\<rparr>) ex g"
      using assms t n by (simp add: perform_action_def action_type_def action_device_id_def)
    have 2: "perform_action a ex g =
              and_then (on_device (action_device_id a) (device_set_brightness (Fin 0)) g)
                (\<lambda>st g'. Returned (ex @ [entry_for a st]) g')"
      using assms t n by (simp add: perform_action_def entry_for_def)
    have 3: "ex' = ex @ [entry_for a \<lparr>is_on = False, brightness = Fin 0\<rparr>]
              \<and> (\<exists>d. map_of (led_devices g') (action_device_id a) = Some d
                     \<and> snapshot (controller d) = \<lparr>is_on = False, brightness = Fin 0\<rparr>)"
      if r: "perform_action a ex g = Returned ex' g'" for ex' g'
    proof -
      from r[unfolded 2] obtain d d' st where
        "device_set_brightness (Fin 0) d = Returned st d'"
        "ex' = ex @ [entry_for a st]"
        "map_of (led_devices g') (action_device_id a) = Some d'"
        by (auto simp: and_then_Returned on_device_Returned map_of_dict_set)
      with set_brightness_zero_state[of d st d'] device_set_brightness_returned[of "Fin 0" d st d']
      show ?thesis by auto
    qed
    from 1 2 3 t show ?thesis by simp
  qed
  have p: ?thesis if t: "action_type a = ''set_power''" and n: "act_is_on a = None"
  proof -
    have 1: "perform_action a ex g = perform_action (a\<lparr>act_is_on := Some False\<rparr>) ex g"
      using assms t n by (simp add: perform_action_def action_type_def action_device_id_def)
    have 2: "perform_action a ex g =
              and_then (on_device (action_device_id a) (device_set_power False) g)
                (\<lambda>st g'. Returned (ex @ [entry_for a st]) g')"
      using assms t n by (simp add: perform_action_def entry_for_def)
    have 3: "ex' = ex @ [entry_for a \<lparr>is_on = False, brightness = Fin 0\<rparr>]
              \<and> (\<exists>d. map_of (led_devices g') (action_device_id a) = Some d
                     \<and> snapshot (controller d) = \<lparr>is_on = False, brightness = Fin 0\<rparr>)"
      if r: "perform_action a ex g = Returned ex' g'" for ex' g'
    proof -
      from r[unfolded 2] obtain d d' st where
        "device_set_power False d = Returned st d'"
        "ex' = ex @ [entry_for a st]"
        "map_of (led_devices g') (action_device_id a) = Some d'"
        by (auto simp: and_then_Returned on_device_Returned map_of_dict_set)
      with set_power_off_state[of d st d'] device_set_power_returned[of False d st d']
      show ?thesis by auto
    qed
    from 1 2 3 t show ?thesis by simp
  qed
  from b p show ?thesis by blast
qed

lemma lit_x_parts:
  "\<not> led_lock (controller lit_x)"
  "backend (pwm (controller lit_x)) =
     Mock ((new_mock_pwm_output 800)\<lparr>started := True, duty_cycle_percent := Fin 100, mock_lock := False\<rparr>)"
  "\<not> mock_lock ((new_mock_pwm_output 800)\<lparr>started := True, duty_cycle_percent := Fin 100, mock_lock := False\<rparr>)"
  by (simp_all add: lit_x_def)

lemma brightness_missing_returns:
  "\<exists>ex' g'. perform_action (mk_action ''set_brightness'' ''x'' None None) [] lit_registry
             = Returned ex' g'"
  by (simp add: lit_registry_def mk_action_def perform_action_def action_type_def
      action_device_id_def on_device_def get_led_free device_set_brightness_def on_controller_def
      set_brightness_mock[OF lit_x_parts refl] clamp_def fl_gt_def Let_def)

lemma power_missing_returns:
  "\<exists>ex' g'. perform_action (mk_action ''set_power'' ''x'' None None) [] lit_registry
             = Returned ex' g'"
  by (simp add: lit_registry_def mk_action_def perform_action_def action_type_def
      action_device_id_def on_device_def get_led_free device_set_power_def on_controller_def
      set_power_off_mock[OF lit_x_parts] Let_def)

theorem missing_values_default_to_off_witness:
  "action_device_id (mk_action ''set_brightness'' ''x'' None None) \<noteq> []
   \<and> action_type (mk_action ''set_brightness'' ''x'' None None) = ''set_brightness''
   \<and> act_brightness (mk_action ''set_brightness'' ''x'' None None) = None
   \<and> action_device_id (mk_action ''set_power'' ''x'' None None) \<noteq> []
   \<and> action_type (mk_action ''set_power'' ''x'' None None) = ''set_power''
   \<and> act_is_on (mk_action ''set_power'' ''x'' None None) = None
   \<and> snapshot (controller lit_x) = \<lparr>is_on = True, brightness = Fin 1\<rparr>
   \<and> (\<exists>g' d. perform_action (mk_action ''set_brightness'' ''x'' None None) [] lit_registry
               = Returned [\<lparr>ex_type = ''set_brightness'', ex_device_id = ''x'',
                            ex_state = \<lparr>is_on = False, brightness = Fin 0\<rparr>\<rparr>] g'
            \<and> map_of (led_devices g') ''x'' = Some d
            \<and> snapshot (controller d) = \<lparr>is_on = False, brightness = Fin 0\<rparr>)
   \<and> (\<exists>g' d. perform_action (mk_action ''set_power'' ''x'' None None) [] lit_registry
               = Returned [\<lparr>ex_type = ''set_power'', ex_device_id = ''x'',
                            ex_state = \<lparr>is_on = False, brightness = Fin 0\<rparr>\<rparr>] g'
            \<and> map_of (led_devices g') ''x'' = Some d
            \<and> snapshot (controller d) = \<lparr>is_on = False, brightness = Fin 0\<rparr>)"
proof -
  let ?a = "mk_action ''set_brightness'' ''x'' None None"
  let ?p = "mk_action ''set_power'' ''x'' None None"
  let ?off = "\<lparr>is_on = False, brightness = Fin 0\<rparr>"
  have h: "action_device_id ?a \<noteq> []" "action_type ?a = ''set_brightness''"
    "act_brightness ?a = None" "action_device_id ?a = ''x''"
    by (simp_all add: mk_action_def action_type_def action_device_id_def)
  have k: "action_device_id ?p \<noteq> []" "action_type ?p = ''set_power''"
    "act_is_on ?p = None" "action_device_id ?p = ''x''"
    by (simp_all add: mk_action_def action_type_def action_device_id_def)
  have s: "snapshot (controller lit_x) = \<lparr>is_on = True, brightness = Fin 1\<rparr>"
    by (simp add: lit_x_def snapshot_def)
  from brightness_missing_returns obtain ex' g' where
    r: "perform_action ?a [] lit_registry = Returned ex' g'" by blast
  from missing_values_default_to_off[OF h(1), of "[]" lit_registry] h(2,3) r
  have "ex' = [entry_for ?a ?off]
        \<and> (\<exists>d. map_of (led_devices g') (action_device_id ?a) = Some d
               \<and> snapshot (controller d) = ?off)"
    by simp
  with r h(2,4)
  have 1: "\<exists>g' d. perform_action ?a [] lit_registry
               = Returned [\<lparr>ex_type = ''set_brightness'', ex_device_id = ''x'', ex_state = ?off\<rparr>] g'
            \<and> map_of (led_devices g') ''x'' = Some d \<and> snapshot (controller d) = ?off"
    by (auto simp: entry_for_def)
  from power_missing_returns obtain ex'' g'' where
    q: "perform_action ?p [] lit_registry = Returned ex'' g''" by blast
  from missing_values_default_to_off[OF k(1), of "[]" lit_registry] k(2,3) q
  have "ex'' = [entry_for ?p ?off]
        \<and> (\<exists>d. map_of (led_devices g'') (action_device_id ?p) = Some d
               \<and> snapshot (controller d) = ?off)"
    by simp
  with q k(2,4)
  have 2: "\<exists>g' d. perform_action ?p [] lit_registry
               = Returned [\<lparr>ex_type = ''set_power'', ex_device_id = ''x'', ex_state = ?off\<rparr>] g'
            \<and> map_of (led_devices g') ''x'' = Some d \<and> snapshot (controller d) = ?off"
    by (auto simp: entry_for_def)
  from h(1,2,3) k(1,2,3) s 1 2 show ?thesis by blast
qed

text \<open>
  C10. An action whose \<^verbatim>\<open>device_id\<close> is not empty after trimming and whose \<^verbatim>\<open>type\<close> is
  neither \<^verbatim>\<open>set_power\<close> nor \<^verbatim>\<open>set_brightness\<close> returns with the result list and the
  registry unchanged, whatever the registry is: no lookup is recorded, whether the
  device is registered or not. Anywhere in a scenario, the run is the run of the
  scenario without that action, so it never aborts the actions after it.
\<close>

theorem unknown_type_never_looks_up:
  assumes "action_device_id a \<noteq> []"
    and "action_type a \<noteq> ''set_power''" and "action_type a \<noteq> ''set_brightness''"
  shows "perform_action a ex g = Returned ex g
       \<and> lookups (final_state (perform_action a ex g)) = lookups g
       \<and> run_actions (pre @ a # post) ex0 g0 = run_actions (pre @ post) ex0 g0"
proof -
  have s: "perform_action a e x = Returned e x" for e x
    using assms by (simp add: perform_action_def)
  have "run_actions (a # post) e x = run_actions post e x" for e x
    by (simp add: s)
  then have "run_actions (a # post) = run_actions post" by (simp add: fun_eq_iff)
  then have "run_actions (pre @ a # post) ex0 g0 = run_actions (pre @ post) ex0 g0"
    by (simp add: run_actions_append)
  with s show ?thesis by simp
qed

theorem unknown_type_never_looks_up_witness:
  "action_device_id (mk_action ''noop'' ''ghost'' None None) \<noteq> []
   \<and> action_type (mk_action ''noop'' ''ghost'' None None) \<noteq> ''set_power''
   \<and> action_type (mk_action ''noop'' ''ghost'' None None) \<noteq> ''set_brightness''
   \<and> (\<exists>g'. get_led ''ghost'' (registry_with ''x'') = Raised (KeyError ''ghost'') g')
   \<and> (\<exists>g'. run_actions [mk_action ''noop'' ''ghost'' None None,
                          mk_action ''set_power'' ''x'' (Some True) None] [] (registry_with ''x'')
             = Returned [\<lparr>ex_type = ''set_power'', ex_device_id = ''x'',
                          ex_state = \<lparr>is_on = True, brightness = Fin 1\<rparr>\<rparr>] g'
           \<and> lookups g' = [''x''])"
proof -
  let ?a = "mk_action ''noop'' ''ghost'' None None"
  have h: "action_device_id ?a \<noteq> []" "action_type ?a \<noteq> ''set_power''"
    "action_type ?a \<noteq> ''set_brightness''"
    by (simp_all add: mk_action_def action_type_def action_device_id_def)
  have k: "\<exists>g'. get_led ''ghost'' (registry_with ''x'') = Raised (KeyError ''ghost'') g'"
    by (simp add: get_led_free registry_with_simp)
  from unknown_type_never_looks_up[OF h, where pre = "[]"
      and post = "[mk_action ''set_power'' ''x'' (Some True) None]"
      and ?ex0.0 = "[]" and ?g0.0 = "registry_with ''x''"]
  have "run_actions [?a, mk_action ''set_power'' ''x'' (Some True) None] [] (registry_with ''x'')
        = run_actions [mk_action ''set_power'' ''x'' (Some True) None] [] (registry_with ''x'')"
    by simp
  then have "\<exists>g'. run_actions [?a, mk_action ''set_power'' ''x'' (Some True) None] []
                    (registry_with ''x'')
             = Returned [\<lparr>ex_type = ''set_power'', ex_device_id = ''x'',
                          ex_state = \<lparr>is_on = True, brightness = Fin 1\<rparr>\<rparr>] g'
           \<and> lookups g' = [''x'']"
    by (simp only: run_power_on_x) simp
  with h k show ?thesis by blast
qed

end
